theory Spec2Isabelle
  imports Main "HOL-Library.Word"
begin

unbundle bit_operations_syntax

section \<open>Values of the host language\<close>

text \<open>
  A \<open>Buffer\<close> (and a \<open>Uint8Array\<close>) is its list of bytes. A string is its list of
  UTF-16 code units, which is what the language's strings are; \<open>js\<close> writes an ASCII
  literal as such a string.
\<close>

type_synonym byte = "8 word"
type_synonym bytes = "byte list"
type_synonym code_unit = "16 word"
type_synonym jsstring = "code_unit list"

definition js :: "string \<Rightarrow> jsstring" where
  "js s = map of_char s"

text \<open>
  A thrown value: the constructor is the error class, the argument its message.
  \<open>error_text\<close> is what a template literal makes of it (\<open>Error.prototype.toString\<close>).
\<close>

datatype js_error =
    Error jsstring
  | TypeError jsstring
  | SyntaxError jsstring
  | RangeError jsstring

fun error_name :: "js_error \<Rightarrow> jsstring" where
  "error_name (Error m) = js ''Error''"
| "error_name (TypeError m) = js ''TypeError''"
| "error_name (SyntaxError m) = js ''SyntaxError''"
| "error_name (RangeError m) = js ''RangeError''"

fun error_message :: "js_error \<Rightarrow> jsstring" where
  "error_message (Error m) = m"
| "error_message (TypeError m) = m"
| "error_message (SyntaxError m) = m"
| "error_message (RangeError m) = m"

definition error_text :: "js_error \<Rightarrow> jsstring" where
  "error_text e =
     (if error_message e = [] then error_name e
      else error_name e @ js '': '' @ error_message e)"

section \<open>Library functions used by \<open>core/buffer.ts\<close>\<close>

subsection \<open>Digits\<close>

text \<open>The value of a digit character in radix 16 (both cases), if it is one.\<close>

definition digit_value :: "code_unit \<Rightarrow> nat option" where
  "digit_value c =
     (if 0x30 \<le> c \<and> c \<le> 0x39 then Some (unat c - 0x30)
      else if 0x61 \<le> c \<and> c \<le> 0x66 then Some (unat c - 0x61 + 10)
      else if 0x41 \<le> c \<and> c \<le> 0x46 then Some (unat c - 0x41 + 10)
      else None)"

text \<open>The character of a digit, lower case, as \<open>toString(radix)\<close> and \<open>toString("hex")\<close> print it.\<close>

definition digit_char :: "nat \<Rightarrow> code_unit" where
  "digit_char d = (if d < 10 then of_nat (0x30 + d) else of_nat (0x61 + (d - 10)))"

text \<open>The digits of a natural number in a radix, most significant first.\<close>

function nat_digits :: "nat \<Rightarrow> nat \<Rightarrow> nat list" where
  "nat_digits b n = (if b < 2 \<or> n < b then [n] else nat_digits b (n div b) @ [n mod b])"
  by pat_completeness auto
termination
  by (relation "measure (\<lambda>(b, n). n)") auto

declare nat_digits.simps [simp del]

text \<open>Reading a run of digits in a radix: \<open>None\<close> at the first character that is not one.\<close>

fun parse_digits :: "nat \<Rightarrow> jsstring \<Rightarrow> nat \<Rightarrow> nat option" where
  "parse_digits b [] acc = Some acc"
| "parse_digits b (c # cs) acc =
     (case digit_value c of
        None \<Rightarrow> None
      | Some d \<Rightarrow> if d < b then parse_digits b cs (acc * b + d) else None)"

definition parse_radix :: "nat \<Rightarrow> jsstring \<Rightarrow> nat option" where
  "parse_radix b s = (if s = [] then None else parse_digits b s 0)"

subsection \<open>\<open>BigInt(string)\<close> and \<open>BigInt.prototype.toString\<close>\<close>

text \<open>
  White space and line terminators, which \<open>BigInt(string)\<close> strips from both ends
  (\<open>StrWhiteSpaceChar\<close>).
\<close>

definition is_white_space :: "code_unit \<Rightarrow> bool" where
  "is_white_space c =
     (c \<in> set [0x09, 0x0A, 0x0B, 0x0C, 0x0D, 0x20, 0xA0, 0x1680, 0x2028, 0x2029,
                0x202F, 0x205F, 0x3000, 0xFEFF]
      \<or> (0x2000 \<le> c \<and> c \<le> 0x200A))"

definition trim :: "jsstring \<Rightarrow> jsstring" where
  "trim s = rev (dropWhile is_white_space (rev (dropWhile is_white_space s)))"

text \<open>
  \<open>StringToBigInt\<close>: the empty (or blank) text is 0; a decimal numeral may carry a
  sign; \<open>0x\<close>, \<open>0o\<close> and \<open>0b\<close> numerals may not. Anything else is no BigInt.
\<close>

definition StringToBigInt :: "jsstring \<Rightarrow> int option" where
  "StringToBigInt str =
     (case trim str of
        [] \<Rightarrow> Some 0
      | c # cs \<Rightarrow>
          if c = 0x2B then map_option int (parse_radix 10 cs)
          else if c = 0x2D then map_option (\<lambda>n. - int n) (parse_radix 10 cs)
          else if c = 0x30 \<and> cs \<noteq> [] \<and> hd cs \<in> set [0x78, 0x58]
            then map_option int (parse_radix 16 (tl cs))
          else if c = 0x30 \<and> cs \<noteq> [] \<and> hd cs \<in> set [0x6F, 0x4F]
            then map_option int (parse_radix 8 (tl cs))
          else if c = 0x30 \<and> cs \<noteq> [] \<and> hd cs \<in> set [0x62, 0x42]
            then map_option int (parse_radix 2 (tl cs))
          else map_option int (parse_radix 10 (c # cs)))"

definition BigInt :: "jsstring \<Rightarrow> js_error + int" where
  "BigInt str =
     (case StringToBigInt str of
        None \<Rightarrow> Inl (SyntaxError (js ''Cannot convert '' @ str @ js '' to a BigInt''))
      | Some n \<Rightarrow> Inr n)"

definition BigInt_toString :: "nat \<Rightarrow> int \<Rightarrow> jsstring" where
  "BigInt_toString radix n =
     (if n < 0 then js ''-'' else []) @ map digit_char (nat_digits radix (nat \<bar>n\<bar>))"

subsection \<open>\<open>padStart\<close>, \<open>Buffer.from(text, "hex")\<close> and \<open>toString("hex")\<close>\<close>

definition padStart :: "nat \<Rightarrow> code_unit \<Rightarrow> jsstring \<Rightarrow> jsstring" where
  "padStart n c s = replicate (n - length s) c @ s"

text \<open>
  Decoding hexadecimal text into a buffer reads two characters at a time, of each code
  unit only its low byte, and stops at the first pair that is not two hexadecimal digits;
  a last single character is dropped.
\<close>

definition low_byte :: "code_unit \<Rightarrow> code_unit" where
  "low_byte c = c AND 0xFF"

fun Buffer_from_hex :: "jsstring \<Rightarrow> bytes" where
  "Buffer_from_hex (a # b # cs) =
     (case digit_value (low_byte a) of
        None \<Rightarrow> []
      | Some x \<Rightarrow>
          (case digit_value (low_byte b) of
             None \<Rightarrow> []
           | Some y \<Rightarrow> of_nat (16 * x + y) # Buffer_from_hex cs))"
| "Buffer_from_hex [a] = []"
| "Buffer_from_hex [] = []"

definition toString_hex :: "bytes \<Rightarrow> jsstring" where
  "toString_hex buf =
     concat (map (\<lambda>b. [digit_char (unat b div 16), digit_char (unat b mod 16)]) buf)"

section \<open>\<open>core/buffer.ts\<close>\<close>

definition toBigInt :: "bytes \<Rightarrow> js_error + int" where
  "toBigInt buffer = BigInt (js ''0x'' @ toString_hex buffer)"

definition toBigIntStr :: "bytes \<Rightarrow> js_error + jsstring" where
  "toBigIntStr buffer =
     (case toBigInt buffer of Inl e \<Rightarrow> Inl e | Inr n \<Rightarrow> Inr (BigInt_toString 10 n))"

definition fromBigInt :: "int \<Rightarrow> nat \<Rightarrow> bytes" where
  "fromBigInt input len = Buffer_from_hex (padStart len 0x30 (BigInt_toString 16 input))"

definition fromBigIntStr :: "jsstring \<Rightarrow> nat \<Rightarrow> js_error + bytes" where
  "fromBigIntStr input len =
     (case BigInt input of Inl e \<Rightarrow> Inl e | Inr n \<Rightarrow> Inr (fromBigInt n len))"

text \<open>The default of the \<open>length\<close> parameter (\<open>len\<close> here) of \<open>fromBigInt\<close> and \<open>fromBigIntStr\<close>.\<close>

definition default_length :: nat where
  "default_length = 64"

section \<open>Text as bytes: \<open>Buffer.from(text)\<close>\<close>

text \<open>
  \<open>Buffer.from(text)\<close> encodes the text in UTF-8. A high surrogate followed by a low
  surrogate is one code point of four bytes; a surrogate that stands alone is replaced by
  U+FFFD (bytes EF BF BD).
\<close>

definition is_high_surrogate :: "code_unit \<Rightarrow> bool" where
  "is_high_surrogate c = (0xD800 \<le> c \<and> c \<le> 0xDBFF)"

definition is_low_surrogate :: "code_unit \<Rightarrow> bool" where
  "is_low_surrogate c = (0xDC00 \<le> c \<and> c \<le> 0xDFFF)"

definition code_point :: "code_unit \<Rightarrow> code_unit \<Rightarrow> 32 word" where
  "code_point hi lo = 0x10000 + push_bit 10 (ucast (hi AND 0x3FF)) + ucast (lo AND 0x3FF)"

definition utf8_1 :: "code_unit \<Rightarrow> bytes" where
  "utf8_1 c = [ucast c]"

definition utf8_2 :: "code_unit \<Rightarrow> bytes" where
  "utf8_2 c = [0xC0 OR ucast (drop_bit 6 c), 0x80 OR ucast (c AND 0x3F)]"

definition utf8_3 :: "code_unit \<Rightarrow> bytes" where
  "utf8_3 c =
     [0xE0 OR ucast (drop_bit 12 c), 0x80 OR ucast (drop_bit 6 c AND 0x3F), 0x80 OR ucast (c AND 0x3F)]"

definition utf8_4 :: "32 word \<Rightarrow> bytes" where
  "utf8_4 p =
     [0xF0 OR ucast (drop_bit 18 p), 0x80 OR ucast (drop_bit 12 p AND 0x3F),
      0x80 OR ucast (drop_bit 6 p AND 0x3F), 0x80 OR ucast (p AND 0x3F)]"

definition replacement :: bytes where
  "replacement = [0xEF, 0xBF, 0xBD]"

fun utf8 :: "jsstring \<Rightarrow> bytes" where
  "utf8 [] = []"
| "utf8 (c # cs) =
     (if c < 0x80 then utf8_1 c @ utf8 cs
      else if c < 0x800 then utf8_2 c @ utf8 cs
      else if is_high_surrogate c then
        (case cs of
           [] \<Rightarrow> replacement
         | d # ds \<Rightarrow>
             if is_low_surrogate d then utf8_4 (code_point c d) @ utf8 ds
             else replacement @ utf8 cs)
      else if is_low_surrogate c then replacement @ utf8 cs
      else utf8_3 c @ utf8 cs)"

section \<open>The hash primitive\<close>

text \<open>
  Modelled from the spec: \<open>bcSha256\<close> is the \<open>sha256\<close> that \<open>utils.ts\<close> imports from
  \<open>bitcoinjs-lib/src/crypto\<close>, a library outside the repository. The specification
  names it as standard SHA-256 with a 32-byte output; the definition follows FIPS 180-4.
\<close>

type_synonym u32 = "32 word"

definition rotr :: "nat \<Rightarrow> u32 \<Rightarrow> u32" where
  "rotr n x = drop_bit n x OR push_bit (32 - n) x"

definition Ch :: "u32 \<Rightarrow> u32 \<Rightarrow> u32 \<Rightarrow> u32" where
  "Ch x y z = (x AND y) XOR (NOT x AND z)"

definition Maj :: "u32 \<Rightarrow> u32 \<Rightarrow> u32 \<Rightarrow> u32" where
  "Maj x y z = (x AND y) XOR (x AND z) XOR (y AND z)"

definition Sigma0 :: "u32 \<Rightarrow> u32" where
  "Sigma0 x = rotr 2 x XOR rotr 13 x XOR rotr 22 x"

definition Sigma1 :: "u32 \<Rightarrow> u32" where
  "Sigma1 x = rotr 6 x XOR rotr 11 x XOR rotr 25 x"

definition sigma0 :: "u32 \<Rightarrow> u32" where
  "sigma0 x = rotr 7 x XOR rotr 18 x XOR drop_bit 3 x"

definition sigma1 :: "u32 \<Rightarrow> u32" where
  "sigma1 x = rotr 17 x XOR rotr 19 x XOR drop_bit 10 x"

text \<open>The round constants and the initial hash value of FIPS 180-4, sections 4.2.2 and 5.3.3.\<close>

definition K256 :: "u32 list" where
  "K256 =
    [1116352408, 1899447441, 3049323471, 3921009573,
     961987163, 1508970993, 2453635748, 2870763221,
     3624381080, 310598401, 607225278, 1426881987,
     1925078388, 2162078206, 2614888103, 3248222580,
     3835390401, 4022224774, 264347078, 604807628,
     770255983, 1249150122, 1555081692, 1996064986,
     2554220882, 2821834349, 2952996808, 3210313671,
     3336571891, 3584528711, 113926993, 338241895,
     666307205, 773529912, 1294757372, 1396182291,
     1695183700, 1986661051, 2177026350, 2456956037,
     2730485921, 2820302411, 3259730800, 3345764771,
     3516065817, 3600352804, 4094571909, 275423344,
     430227734, 506948616, 659060556, 883997877,
     958139571, 1322822218, 1537002063, 1747873779,
     1955562222, 2024104815, 2227730452, 2361852424,
     2428436474, 2756734187, 3204031479, 3329325298]"

type_synonym sha_state = "u32 \<times> u32 \<times> u32 \<times> u32 \<times> u32 \<times> u32 \<times> u32 \<times> u32"

definition H256 :: sha_state where
  "H256 =
     (1779033703, 3144134277, 1013904242, 2773480762, 1359893119, 2600822924, 528734635, 1541459225)"

text \<open>Padding: a 1 bit, zero bits up to 56 bytes modulo 64, the bit length in 8 bytes.\<close>

definition length_bytes :: "nat \<Rightarrow> bytes" where
  "length_bytes n =
     (let w = (of_nat (8 * n) :: 64 word)
      in map (\<lambda>i. ucast (drop_bit (8 * i) w)) [7, 6, 5, 4, 3, 2, 1, 0])"

definition pad :: "bytes \<Rightarrow> bytes" where
  "pad m = m @ [0x80] @ replicate ((119 - length m mod 64) mod 64) 0 @ length_bytes (length m)"

fun words_of :: "bytes \<Rightarrow> u32 list" where
  "words_of (a # b # c # d # r) =
     (push_bit 24 (ucast a) OR push_bit 16 (ucast b) OR push_bit 8 (ucast c) OR ucast d) # words_of r"
| "words_of _ = []"

definition round256 :: "sha_state \<Rightarrow> u32 \<Rightarrow> u32 \<Rightarrow> sha_state" where
  "round256 s k w =
     (case s of (a, b, c, d, e, f, g, h) \<Rightarrow>
      (let t1 = h + Sigma1 e + Ch e f g + k + w;
           t2 = Sigma0 a + Maj a b c
       in (t1 + t2, a, b, c, d + t1, e, f, g)))"

text \<open>
  The message schedule is computed along the rounds: \<open>ws\<close> holds the sixteen words
  \<open>W\<^sub>t .. W\<^sub>t\<^sub>+\<^sub>1\<^sub>5\<close>, and \<open>next_word\<close> is \<open>W\<^sub>t\<^sub>+\<^sub>1\<^sub>6\<close>.
\<close>

definition next_word :: "u32 list \<Rightarrow> u32" where
  "next_word ws = sigma1 (ws ! 14) + ws ! 9 + sigma0 (ws ! 1) + ws ! 0"

fun rounds :: "u32 list \<Rightarrow> u32 list \<Rightarrow> sha_state \<Rightarrow> sha_state" where
  "rounds [] ws s = s"
| "rounds (k # ks) ws s = rounds ks (tl ws @ [next_word ws]) (round256 s k (hd ws))"

definition add_state :: "sha_state \<Rightarrow> sha_state \<Rightarrow> sha_state" where
  "add_state s t =
     (case s of (a, b, c, d, e, f, g, h) \<Rightarrow>
      (case t of (a', b', c', d', e', f', g', h') \<Rightarrow>
        (a + a', b + b', c + c', d + d', e + e', f + f', g + g', h + h')))"

definition compress :: "sha_state \<Rightarrow> u32 list \<Rightarrow> sha_state" where
  "compress hs block = add_state hs (rounds K256 block hs)"

fun blocks :: "sha_state \<Rightarrow> u32 list \<Rightarrow> sha_state" where
  "blocks hs ws =
     (if length ws < 16 then hs else blocks (compress hs (take 16 ws)) (drop 16 ws))"

declare blocks.simps [simp del]

definition word_bytes :: "u32 \<Rightarrow> bytes" where
  "word_bytes w = [ucast (drop_bit 24 w), ucast (drop_bit 16 w), ucast (drop_bit 8 w), ucast w]"

definition bcSha256 :: "bytes \<Rightarrow> bytes" where
  "bcSha256 m =
     (case blocks H256 (words_of (pad m)) of (a, b, c, d, e, f, g, h) \<Rightarrow>
        concat (map word_bytes [a, b, c, d, e, f, g, h]))"

section \<open>Values held by a protocol draft\<close>

text \<open>
  The values a draft can hold are plain data: \<open>undefined\<close>, \<open>null\<close>, booleans, numbers,
  strings, arrays and objects. An object is the list of its own properties in the order
  in which they are enumerated. A number is kept as the text that \<open>Number::toString\<close>
  gives for it (\<open>1000\<close>, \<open>0.4840164898423085\<close>, \<open>NaN\<close>), which is the only way this program
  looks at a number.
\<close>

datatype jsvalue =
    JUndefined
  | JNull
  | JBool bool
  | JNumber jsstring
  | JString jsstring
  | JArray "jsvalue list"
  | JObject "(jsstring \<times> jsvalue) list"

type_synonym jsobject = "(jsstring \<times> jsvalue) list"

text \<open>The conditional operator's test (\<open>ToBoolean\<close>).\<close>

fun truthy :: "jsvalue \<Rightarrow> bool" where
  "truthy JUndefined = False"
| "truthy JNull = False"
| "truthy (JBool b) = b"
| "truthy (JNumber t) = (t \<noteq> js ''0'' \<and> t \<noteq> js ''NaN'')"
| "truthy (JString t) = (t \<noteq> [])"
| "truthy (JArray vs) = True"
| "truthy (JObject fs) = True"

fun join :: "jsstring \<Rightarrow> jsstring list \<Rightarrow> jsstring" where
  "join sep [] = []"
| "join sep [x] = x"
| "join sep (x # y # r) = x @ sep @ join sep (y # r)"

text \<open>What a template literal and \<open>"" + x\<close> make of a value (\<open>ToString\<close>).\<close>

fun ToString :: "jsvalue \<Rightarrow> jsstring"
  and ToString_elements :: "jsvalue list \<Rightarrow> jsstring list" where
  "ToString JUndefined = js ''undefined''"
| "ToString JNull = js ''null''"
| "ToString (JBool b) = (if b then js ''true'' else js ''false'')"
| "ToString (JNumber t) = t"
| "ToString (JString t) = t"
| "ToString (JArray vs) = join (js '','') (ToString_elements vs)"
| "ToString (JObject fs) = js ''[object Object]''"
| "ToString_elements [] = []"
| "ToString_elements (v # vs) =
     (if v = JUndefined \<or> v = JNull then [] else ToString v) # ToString_elements vs"

subsection \<open>Properties\<close>

text \<open>
  \<open>lookup\<close> reads an own property of an object; \<open>member\<close> reads a property of any value
  that is neither \<open>undefined\<close> nor \<open>null\<close> (the program reads \<open>salt\<close>, \<open>sig\<close>, \<open>address\<close>,
  \<open>r\<close>, \<open>s\<close> and \<open>v\<close> this way, always behind a test that excludes those two), and a
  value that is not an object has none of these properties.
\<close>

definition lookup :: "jsobject \<Rightarrow> jsstring \<Rightarrow> jsvalue" where
  "lookup fs k = (case map_of fs k of None \<Rightarrow> JUndefined | Some v \<Rightarrow> v)"

fun member :: "jsvalue \<Rightarrow> jsstring \<Rightarrow> jsvalue" where
  "member (JObject fs) k = lookup fs k"
| "member v k = JUndefined"

text \<open>
  A computed read \<open>object[key]\<close> of a plain object. A key that is not an own property is
  looked up in \<open>Object.prototype\<close>: \<open>__proto__\<close> yields that prototype, an object with no
  enumerable property of its own; its other properties are functions, which
  \<open>JSON.stringify\<close> treats as it treats \<open>undefined\<close>.
\<close>

definition computed_member :: "jsobject \<Rightarrow> jsstring \<Rightarrow> jsvalue" where
  "computed_member fs k =
     (case map_of fs k of
        Some v \<Rightarrow> v
      | None \<Rightarrow> if k = js ''__proto__'' then JObject [] else JUndefined)"

text \<open>
  Property keys that are array indices (canonical numerals below \<open>2\<^sup>3\<^sup>2 - 1\<close>) are
  enumerated first, in ascending order; all other keys follow in the order of their
  creation. Assigning to an existing property keeps its place.
\<close>

definition array_index :: "jsstring \<Rightarrow> nat option" where
  "array_index k =
     (case parse_radix 10 k of
        None \<Rightarrow> None
      | Some n \<Rightarrow> if map digit_char (nat_digits 10 n) = k \<and> int n < 4294967295 then Some n else None)"

fun insert_index :: "nat \<Rightarrow> jsstring \<Rightarrow> jsvalue \<Rightarrow> jsobject \<Rightarrow> jsobject" where
  "insert_index n k v [] = [(k, v)]"
| "insert_index n k v ((k', v') # fs) =
     (case array_index k' of
        None \<Rightarrow> (k, v) # (k', v') # fs
      | Some m \<Rightarrow> if n < m then (k, v) # (k', v') # fs else (k', v') # insert_index n k v fs)"

fun replace_prop :: "jsobject \<Rightarrow> jsstring \<Rightarrow> jsvalue \<Rightarrow> jsobject" where
  "replace_prop [] k v = []"
| "replace_prop ((k', v') # fs) k v =
     (if k' = k then (k, v) # fs else (k', v') # replace_prop fs k v)"

definition set_prop :: "jsobject \<Rightarrow> jsstring \<Rightarrow> jsvalue \<Rightarrow> jsobject" where
  "set_prop fs k v =
     (if k \<in> fst ` set fs then replace_prop fs k v
      else (case array_index k of None \<Rightarrow> fs @ [(k, v)] | Some n \<Rightarrow> insert_index n k v fs))"

text \<open>An object literal: its properties are defined from left to right.\<close>

definition object_literal :: "(jsstring \<times> jsvalue) list \<Rightarrow> jsobject" where
  "object_literal ps = foldl (\<lambda>fs p. set_prop fs (fst p) (snd p)) [] ps"

subsection \<open>\<open>JSON.stringify\<close>\<close>

definition hex4 :: "code_unit \<Rightarrow> jsstring" where
  "hex4 c =
     [0x5C, 0x75] @
     map digit_char [unat c div 4096, unat c div 256 mod 16, unat c div 16 mod 16, unat c mod 16]"

text \<open>
  \<open>QuoteJSONString\<close> without the enclosing quotes: the quote and the backslash are
  escaped, control characters have their short or \<open>\u00xx\<close> escape, a surrogate that stands
  alone is written as \<open>\udxxx\<close>.
\<close>

definition quote_unit :: "code_unit \<Rightarrow> jsstring" where
  "quote_unit c =
     (if c = 0x08 then [0x5C, 0x62]
      else if c = 0x09 then [0x5C, 0x74]
      else if c = 0x0A then [0x5C, 0x6E]
      else if c = 0x0C then [0x5C, 0x66]
      else if c = 0x0D then [0x5C, 0x72]
      else if c = 0x22 then [0x5C, 0x22]
      else if c = 0x5C then [0x5C, 0x5C]
      else if c < 0x20 then hex4 c
      else [c])"

fun quote_units :: "jsstring \<Rightarrow> jsstring" where
  "quote_units [] = []"
| "quote_units (c # cs) =
     (if is_high_surrogate c then
        (case cs of
           [] \<Rightarrow> hex4 c
         | d # ds \<Rightarrow>
             if is_low_surrogate d then c # d # quote_units ds else hex4 c @ quote_units cs)
      else if is_low_surrogate c then hex4 c @ quote_units cs
      else quote_unit c @ quote_units cs)"

definition QuoteJSONString :: "jsstring \<Rightarrow> jsstring" where
  "QuoteJSONString t = [0x22] @ quote_units t @ [0x22]"

text \<open>
  \<open>JSON_stringify\<close> is \<open>None\<close> where \<open>JSON.stringify\<close> returns \<open>undefined\<close>. A property
  whose value has no serialisation is left out; such an element of an array is \<open>null\<close>;
  so is a number that is not finite.
\<close>

fun JSON_stringify :: "jsvalue \<Rightarrow> jsstring option"
  and stringify_elements :: "jsvalue list \<Rightarrow> jsstring list"
  and stringify_properties :: "(jsstring \<times> jsvalue) list \<Rightarrow> jsstring list" where
  "JSON_stringify JUndefined = None"
| "JSON_stringify JNull = Some (js ''null'')"
| "JSON_stringify (JBool b) = Some (if b then js ''true'' else js ''false'')"
| "JSON_stringify (JNumber t) =
     Some (if t = js ''NaN'' \<or> t = js ''Infinity'' \<or> t = js ''-Infinity'' then js ''null'' else t)"
| "JSON_stringify (JString t) = Some (QuoteJSONString t)"
| "JSON_stringify (JArray vs) = Some (js ''['' @ join (js '','') (stringify_elements vs) @ js '']'')"
| "JSON_stringify (JObject fs) =
     Some (js ''{'' @ join (js '','') (stringify_properties fs) @ js ''}'')"
| "stringify_elements [] = []"
| "stringify_elements (v # vs) =
     (case JSON_stringify v of None \<Rightarrow> js ''null'' | Some t \<Rightarrow> t) # stringify_elements vs"
| "stringify_properties [] = []"
| "stringify_properties (p # ps) =
     (case JSON_stringify (snd p) of
        None \<Rightarrow> stringify_properties ps
      | Some t \<Rightarrow> (QuoteJSONString (fst p) @ js '':'' @ t) # stringify_properties ps)"

text \<open>The value of the expression \<open>JSON.stringify(x)\<close>.\<close>

definition stringified :: "jsvalue \<Rightarrow> jsvalue" where
  "stringified x = (case JSON_stringify x of None \<Rightarrow> JUndefined | Some t \<Rightarrow> JString t)"

section \<open>What the program takes from outside\<close>

text \<open>
  \<open>Number(text)\<close>, as \<open>joinSignature\<close> applies it to the recovery id: a plain decimal numeral
  up to \<open>2\<^sup>5\<^sup>3\<close> is that integer, exactly. For any other text (signs, fractions,
  exponents, white space, rounding) the conversion is not modelled and the text is carried
  along, so that the curve library, which receives the result, still gets all of it.
\<close>

datatype jsnumber = Integer nat | NumberOf jsstring

definition Number :: "jsstring \<Rightarrow> jsnumber" where
  "Number t =
     (case parse_radix 10 t of
        None \<Rightarrow> NumberOf t
      | Some n \<Rightarrow> if int n \<le> 9007199254740992 then Integer n else NumberOf t)"

text \<open>\<open>toString()\<close> of a number that is a natural number below \<open>10\<^sup>2\<^sup>1\<close>, as a recovery id is.\<close>

definition Number_toString :: "nat \<Rightarrow> jsstring" where
  "Number_toString n = map digit_char (nat_digits 10 n)"

text \<open>
  A \<open>RecoverableSignature\<close> as \<open>tiny-secp256k1\<close> returns it and as \<open>splitSignature\<close> takes
  it. \<open>splitSignature\<close> tests at run time that the signature is a \<open>Uint8Array\<close>.
\<close>

datatype u8_value = Uint8Array bytes | NotUint8Array

record RecoverableSignature =
  rs_signature :: u8_value
  rs_recoveryId :: nat

text \<open>The \<open>RecoverableSignature\<close> that \<open>joinSignature\<close> builds.\<close>

record JoinedSignature =
  joined_signature :: bytes
  joined_recoveryId :: jsnumber

text \<open>
  The curve library \<open>tiny-secp256k1\<close> (\<open>ecc\<close>) and \<open>String.prototype.toLowerCase\<close>, which
  rests on the Unicode case tables, are parameters of the model: every function below
  that uses one of them takes the record \<open>E\<close>. A call of the library returns or throws.
\<close>

record externals =
  ecc_signRecoverable :: "bytes \<Rightarrow> bytes \<Rightarrow> js_error + RecoverableSignature"
  ecc_verify :: "bytes \<Rightarrow> bytes \<Rightarrow> bytes \<Rightarrow> js_error + bool"
  ecc_recover :: "bytes \<Rightarrow> bytes \<Rightarrow> jsnumber \<Rightarrow> bool \<Rightarrow> js_error + bytes option"
  toLowerCase :: "jsstring \<Rightarrow> jsstring"

section \<open>\<open>utils.ts\<close>\<close>

record KeypairBuffer =
  privKeyBuffer :: bytes
  pubKeyBuffer :: bytes

record VerificationResult =
  valid :: bool
  pub :: jsstring
  pubRecovered :: jsstring
  result :: jsvalue

subsection \<open>\<open>sha256\<close>\<close>

datatype sha_input = Text jsstring | Bytes bytes

fun sha256 :: "sha_input \<Rightarrow> bytes" where
  "sha256 (Text input) = bcSha256 (utf8 input)"
| "sha256 (Bytes input) = bcSha256 input"

subsection \<open>\<open>splitSignature\<close> and \<open>joinSignature\<close>\<close>

datatype output_format = Format_number | Format_hex

definition slice :: "nat \<Rightarrow> nat \<Rightarrow> 'a list \<Rightarrow> 'a list" where
  "slice a b xs = take (b - a) (drop a xs)"

text \<open>The \<open>Signature\<close> object \<open>{v, r, s}\<close>.\<close>

definition Signature :: "jsstring \<Rightarrow> jsstring \<Rightarrow> jsstring \<Rightarrow> jsvalue" where
  "Signature v r s =
     JObject (object_literal [(js ''v'', JString v), (js ''r'', JString r), (js ''s'', JString s)])"

definition splitSignature :: "RecoverableSignature \<Rightarrow> output_format \<Rightarrow> js_error + jsvalue" where
  "splitSignature sig outputFormat =
     (case rs_signature sig of
        NotUint8Array \<Rightarrow> Inl (Error (js ''Invalid signature type''))
      | Uint8Array sg \<Rightarrow>
          if length sg \<noteq> 64 then Inl (Error (js ''Invalid signature length''))
          else
            (let r = slice 0 32 sg; s = slice 32 64 sg in
             case outputFormat of
               Format_hex \<Rightarrow>
                 Inr (Signature (Number_toString (rs_recoveryId sig)) (toString_hex r) (toString_hex s))
             | Format_number \<Rightarrow>
                 (case toBigIntStr r of
                    Inl e \<Rightarrow> Inl e
                  | Inr rt \<Rightarrow>
                      (case toBigIntStr s of
                         Inl e \<Rightarrow> Inl e
                       | Inr st \<Rightarrow> Inr (Signature (Number_toString (rs_recoveryId sig)) rt st)))))"

text \<open>\<open>typeof x === "object"\<close> holds of objects, arrays and \<open>null\<close>.\<close>

fun typeof_object :: "jsvalue \<Rightarrow> bool" where
  "typeof_object JNull = True"
| "typeof_object (JArray vs) = True"
| "typeof_object (JObject fs) = True"
| "typeof_object v = False"

definition joinSignature :: "jsvalue \<Rightarrow> js_error + JoinedSignature" where
  "joinSignature sig =
     (if \<not> typeof_object sig \<or> sig = JNull then Inl (Error (js ''Invalid signature type''))
      else
        (case member sig (js ''r'') of
           JString rt \<Rightarrow>
             (case member sig (js ''s'') of
                JString st \<Rightarrow>
                  (case member sig (js ''v'') of
                     JString vt \<Rightarrow>
                       (case fromBigIntStr rt default_length of
                          Inl e \<Rightarrow> Inl e
                        | Inr r \<Rightarrow>
                            (case fromBigIntStr st default_length of
                               Inl e \<Rightarrow> Inl e
                             | Inr s \<Rightarrow>
                                 Inr \<lparr>joined_signature = r @ s, joined_recoveryId = Number vt\<rparr>))
                   | _ \<Rightarrow> Inl (Error (js ''Invalid signature format'')))
              | _ \<Rightarrow> Inl (Error (js ''Invalid signature format'')))
         | _ \<Rightarrow> Inl (Error (js ''Invalid signature format''))))"

subsection \<open>\<open>sign\<close>\<close>

text \<open>\<open>Buffer.isBuffer\<close> decides between the two.\<close>

datatype buffer_value = Buffer bytes | NotBuffer

text \<open>The body of the \<open>try\<close> block, once the three arguments have passed the type test.\<close>

definition sign_try :: "externals \<Rightarrow> jsstring \<Rightarrow> bytes \<Rightarrow> jsstring \<Rightarrow> js_error + jsvalue \<times> bytes" where
  "sign_try E message key salt =
     (let msgHash = sha256 (Text (message @ salt)) in
      case ecc_signRecoverable E msgHash key of
        Inl e \<Rightarrow> Inl e
      | Inr recoverableSig \<Rightarrow>
          (case splitSignature recoverableSig Format_number of
             Inl e \<Rightarrow> Inl e
           | Inr sg \<Rightarrow> Inr (sg, msgHash)))"

definition sign :: "externals \<Rightarrow> jsvalue \<Rightarrow> buffer_value \<Rightarrow> jsvalue \<Rightarrow> js_error + jsvalue \<times> bytes" where
  "sign E message privKey salt =
     (case message of
        JString m \<Rightarrow>
          (case privKey of
             Buffer key \<Rightarrow>
               (case salt of
                  JString st \<Rightarrow>
                    (case sign_try E m key st of
                       Inl e \<Rightarrow> Inl (Error (js ''Failed to sign the message: '' @ error_text e))
                     | Inr r \<Rightarrow> Inr r)
                | _ \<Rightarrow> Inl (Error (js ''Invalid input types'')))
           | NotBuffer \<Rightarrow> Inl (Error (js ''Invalid input types'')))
      | _ \<Rightarrow> Inl (Error (js ''Invalid input types'')))"

subsection \<open>\<open>verify\<close>\<close>

definition verify :: "externals \<Rightarrow> bytes \<Rightarrow> bytes \<Rightarrow> jsvalue \<Rightarrow> jsvalue \<Rightarrow> js_error + VerificationResult" where
  "verify E hash pubKey sg protocol =
     (case joinSignature sg of
        Inl e \<Rightarrow> Inl e
      | Inr sig \<Rightarrow>
          (case ecc_verify E hash pubKey (joined_signature sig) of
             Inl e \<Rightarrow> Inl e
           | Inr isValid \<Rightarrow>
               (case ecc_recover E hash (joined_signature sig) (joined_recoveryId sig) True of
                  Inl e \<Rightarrow> Inl e
                | Inr recovered \<Rightarrow>
                    Inr \<lparr>valid = isValid,
                         pub = toString_hex pubKey,
                         pubRecovered =
                           toString_hex (case recovered of None \<Rightarrow> replicate 33 0 | Some q \<Rightarrow> q),
                         result = stringified protocol\<rparr>)))"

subsection \<open>\<open>signAndVerify\<close>\<close>

text \<open>
  \<open>protocol.prv.sig = x\<close> (and \<open>.hash\<close>), where \<open>protocol.prv\<close> has passed the truth test: on
  an object the property is set; on a string, a number or \<open>true\<close> the assignment throws
  (the module is in strict mode); on an array it sets a property that \<open>JSON.stringify\<close>
  does not show. Only the first case is ever reached: \<open>sign\<close> has by then accepted
  \<open>protocol.prv.salt\<close> as a string, and only an object has such a property
  (lemma \<open>signAndVerify_nested_is_object\<close>).
\<close>

fun assign_member :: "jsvalue \<Rightarrow> jsstring \<Rightarrow> jsvalue \<Rightarrow> js_error + jsvalue" where
  "assign_member (JObject fs) k x = Inr (JObject (set_prop fs k x))"
| "assign_member (JArray vs) k x = Inr (JArray vs)"
| "assign_member v k x =
     Inl (TypeError (js ''Cannot create property '' @ [0x27] @ k @ [0x27] @ js '' on '' @ ToString v))"

text \<open>
  The draft is mutated in place; the model returns it next to the outcome, as the caller
  finds it after the call, whether the call returned or threw.
\<close>

definition signAndVerify ::
    "externals \<Rightarrow> jsobject \<Rightarrow> KeypairBuffer \<Rightarrow> jsvalue \<Rightarrow> jsstring option
      \<Rightarrow> jsobject \<times> (js_error + VerificationResult)" where
  "signAndVerify E protocol keypair baseMessage messageKey =
     (let nested = truthy (lookup protocol (js ''prv''));
          salt = (if nested then member (lookup protocol (js ''prv'')) (js ''salt'')
                  else lookup protocol (js ''salt''))
      in
      case sign E baseMessage (Buffer (privKeyBuffer keypair)) salt of
        Inl e \<Rightarrow> (protocol, Inl e)
      | Inr (sg, msgHash) \<Rightarrow>
          (case (if nested
                 then (case assign_member (lookup protocol (js ''prv'')) (js ''sig'') sg of
                         Inl e \<Rightarrow> Inl e
                       | Inr prv1 \<Rightarrow>
                           (case assign_member prv1 (js ''hash'') (JString (toString_hex msgHash)) of
                              Inl e \<Rightarrow> Inl e
                            | Inr prv2 \<Rightarrow> Inr (set_prop protocol (js ''prv'') prv2)))
                 else Inr (set_prop (set_prop protocol (js ''sig'') sg)
                             (js ''hash'') (JString (toString_hex msgHash)))) of
             Inl e \<Rightarrow> (protocol, Inl e)
           | Inr protocol' \<Rightarrow>
               (let test_protocol = protocol';
                    test_message =
                      (case messageKey of
                         None \<Rightarrow> baseMessage
                       | Some k \<Rightarrow>
                           if k = [] then baseMessage
                           else stringified (computed_member test_protocol k));
                    test_msgHash = sha256 (Text (ToString test_message @ ToString salt));
                    test_sig =
                      (if truthy (lookup test_protocol (js ''prv''))
                       then member (lookup test_protocol (js ''prv'')) (js ''sig'')
                       else lookup test_protocol (js ''sig''))
                in (protocol', verify E test_msgHash (pubKeyBuffer keypair) test_sig (JObject protocol')))))"

subsection \<open>\<open>getKeypairBuff\<close>\<close>

text \<open>A key is given as a buffer or as hexadecimal text.\<close>

datatype key_input = KeyBuffer bytes | KeyText jsstring

fun key_buffer :: "key_input \<Rightarrow> bytes" where
  "key_buffer (KeyBuffer b) = b"
| "key_buffer (KeyText t) = Buffer_from_hex t"

definition getKeypairBuff :: "key_input \<Rightarrow> key_input \<Rightarrow> js_error + KeypairBuffer" where
  "getKeypairBuff privKey pubKey =
     (let priv = key_buffer privKey; pubk = key_buffer pubKey in
      if length priv \<noteq> 32 \<or> length pubk \<noteq> 33 then Inl (Error (js ''Invalid key length''))
      else Inr \<lparr>privKeyBuffer = priv, pubKeyBuffer = pubk\<rparr>)"

section \<open>\<open>index.ts\<close>: the protocol assemblers\<close>

text \<open>
  Each assembler builds its draft, a local object, and returns what \<open>signAndVerify\<close>
  returns. The \<open>salt\<close> parameter defaults to \<open>Math.random()\<close>; the model takes the salt
  the call runs with, a number or a string, as an argument.
\<close>

definition signAuth ::
    "externals \<Rightarrow> key_input \<Rightarrow> key_input \<Rightarrow> jsstring \<Rightarrow> jsvalue \<Rightarrow> jsvalue
      \<Rightarrow> js_error + VerificationResult" where
  "signAuth E privKey pubKey messageKey message salt =
     (case getKeypairBuff privKey pubKey of
        Inl e \<Rightarrow> Inl e
      | Inr keypair \<Rightarrow>
          (let protocol = object_literal
                 [(js ''p'', JString (js ''tap'')),
                  (js ''op'', JString (js ''privilege-auth'')),
                  (js ''sig'', JNull),
                  (js ''hash'', JNull),
                  (js ''salt'', JString (ToString salt)),
                  (messageKey, message)];
               baseMessage = stringified message
           in snd (signAndVerify E protocol keypair baseMessage (Some messageKey))))"

definition mint_draft :: "externals \<Rightarrow> jsstring \<Rightarrow> jsstring \<Rightarrow> jsstring \<Rightarrow> jsvalue \<Rightarrow> jsobject" where
  "mint_draft E ticker amount address salt =
     object_literal
       [(js ''p'', JString (js ''tap'')),
        (js ''op'', JString (js ''token-mint'')),
        (js ''tick'', JString (toLowerCase E ticker)),
        (js ''amt'', JNumber amount),
        (js ''prv'', JObject (object_literal
           [(js ''sig'', JNull),
            (js ''hash'', JNull),
            (js ''address'', JString address),
            (js ''salt'', JString (ToString salt))]))]"

definition signMint ::
    "externals \<Rightarrow> key_input \<Rightarrow> key_input \<Rightarrow> jsstring \<Rightarrow> jsstring \<Rightarrow> jsstring \<Rightarrow> jsvalue
      \<Rightarrow> js_error + VerificationResult" where
  "signMint E privKey pubKey ticker amount address salt =
     (case getKeypairBuff privKey pubKey of
        Inl e \<Rightarrow> Inl e
      | Inr keypair \<Rightarrow>
          (let protocol = mint_draft E ticker amount address salt;
               baseMessage =
                 ToString (lookup protocol (js ''p'')) @ js ''-'' @
                 ToString (lookup protocol (js ''op'')) @ js ''-'' @
                 ToString (lookup protocol (js ''tick'')) @ js ''-'' @
                 ToString (lookup protocol (js ''amt'')) @ js ''-'' @
                 ToString (member (lookup protocol (js ''prv'')) (js ''address'')) @ js ''-''
           in snd (signAndVerify E protocol keypair (JString baseMessage) None)))"

definition signDmtMint ::
    "externals \<Rightarrow> key_input \<Rightarrow> key_input \<Rightarrow> jsstring \<Rightarrow> jsstring \<Rightarrow> jsstring \<Rightarrow> jsstring
      \<Rightarrow> jsvalue \<Rightarrow> js_error + VerificationResult" where
  "signDmtMint E privKey pubKey ticker block dependency address salt =
     (case getKeypairBuff privKey pubKey of
        Inl e \<Rightarrow> Inl e
      | Inr keypair \<Rightarrow>
          (let protocol = object_literal
                 [(js ''p'', JString (js ''tap'')),
                  (js ''op'', JString (js ''dmt-mint'')),
                  (js ''tick'', JString (toLowerCase E ticker)),
                  (js ''blk'', JNumber block),
                  (js ''dep'', JString dependency),
                  (js ''prv'', JObject (object_literal
                     [(js ''sig'', JNull),
                      (js ''hash'', JNull),
                      (js ''address'', JString address),
                      (js ''salt'', JString (ToString salt))]))];
               baseMessage =
                 ToString (lookup protocol (js ''p'')) @ js ''-'' @
                 ToString (lookup protocol (js ''op'')) @ js ''-'' @
                 ToString (lookup protocol (js ''tick'')) @ js ''-'' @
                 ToString (lookup protocol (js ''blk'')) @ js ''-'' @
                 ToString (lookup protocol (js ''dep'')) @ js ''-'' @
                 ToString (member (lookup protocol (js ''prv'')) (js ''address'')) @ js ''-''
           in snd (signAndVerify E protocol keypair (JString baseMessage) None)))"

definition verification_draft ::
    "jsstring \<Rightarrow> jsstring \<Rightarrow> jsstring \<Rightarrow> jsstring \<Rightarrow> jsstring \<Rightarrow> jsvalue \<Rightarrow> jsobject" where
  "verification_draft privilege_authority_id sha256_hash collection sequence address salt =
     object_literal
       [(js ''p'', JString (js ''tap'')),
        (js ''op'', JString (js ''privilege-auth'')),
        (js ''sig'', JNull),
        (js ''hash'', JNull),
        (js ''address'', JString address),
        (js ''salt'', JString (ToString salt)),
        (js ''prv'', JString privilege_authority_id),
        (js ''verify'', JString sha256_hash),
        (js ''col'', JString collection),
        (js ''seq'', JNumber sequence)]"

definition signVerification ::
    "externals \<Rightarrow> key_input \<Rightarrow> key_input \<Rightarrow> jsstring \<Rightarrow> jsstring \<Rightarrow> jsstring \<Rightarrow> jsstring
      \<Rightarrow> jsstring \<Rightarrow> jsvalue \<Rightarrow> js_error + VerificationResult" where
  "signVerification E privKey pubKey privilege_authority_id sha256_hash collection sequence
       address salt =
     (case getKeypairBuff privKey pubKey of
        Inl e \<Rightarrow> Inl e
      | Inr keypair \<Rightarrow>
          (let protocol =
                 verification_draft privilege_authority_id sha256_hash collection sequence
                   address salt;
               baseMessage =
                 ToString (lookup protocol (js ''prv'')) @ js ''-'' @
                 ToString (lookup protocol (js ''col'')) @ js ''-'' @
                 ToString (lookup protocol (js ''verify'')) @ js ''-'' @
                 ToString (lookup protocol (js ''seq'')) @ js ''-'' @
                 ToString (lookup protocol (js ''address'')) @ js ''-''
           in snd (signAndVerify E protocol keypair (JString baseMessage) None)))"

definition generateTokenAuthScript ::
    "externals \<Rightarrow> key_input \<Rightarrow> key_input \<Rightarrow> jsstring \<Rightarrow> jsvalue \<Rightarrow> jsvalue
      \<Rightarrow> js_error + VerificationResult" where
  "generateTokenAuthScript E privKey pubKey messageKey message salt =
     (case getKeypairBuff privKey pubKey of
        Inl e \<Rightarrow> Inl e
      | Inr keypair \<Rightarrow>
          (let protocol = object_literal
                 [(js ''p'', JString (js ''tap'')),
                  (js ''op'', JString (js ''token-auth'')),
                  (js ''sig'', JNull),
                  (js ''hash'', JNull),
                  (js ''salt'', JString (ToString salt)),
                  (messageKey, message)];
               baseMessage = stringified message
           in snd (signAndVerify E protocol keypair baseMessage (Some messageKey))))"

definition signTokenAuth ::
    "externals \<Rightarrow> key_input \<Rightarrow> key_input \<Rightarrow> jsstring list \<Rightarrow> jsvalue
      \<Rightarrow> js_error + VerificationResult" where
  "signTokenAuth E privKey pubKey authTokens salt =
     generateTokenAuthScript E privKey pubKey (js ''auth'') (JArray (map JString authTokens)) salt"

definition signTokenRedeem ::
    "externals \<Rightarrow> key_input \<Rightarrow> key_input \<Rightarrow> jsvalue list \<Rightarrow> jsstring \<Rightarrow> jsstring \<Rightarrow> jsvalue
      \<Rightarrow> js_error + VerificationResult" where
  "signTokenRedeem E privKey pubKey redeemItems auth data salt =
     generateTokenAuthScript E privKey pubKey (js ''redeem'')
       (JObject (object_literal
          [(js ''items'', JArray redeemItems),
           (js ''auth'', JString auth),
           (js ''data'', JString data)]))
       salt"

section \<open>A curve library to run the model on\<close>

text \<open>
  To evaluate the model at concrete inputs the parameters need values. \<open>toy\<close> is a
  stand-in with the interface and the argument checks of \<open>tiny-secp256k1\<close> but none of its
  cryptography: the public key of a private key is the byte 2 followed by the private
  key, a signature is the private key followed by the hash, and it is valid for a public
  key when it is that key's private key followed by the hash. \<open>recover\<close> rejects a
  signature whose \<open>r\<close> is zero (the library rejects a zero \<open>r\<close> or \<open>s\<close>). Lower-casing is
  that of ASCII.
\<close>

definition toy_signRecoverable :: "bytes \<Rightarrow> bytes \<Rightarrow> js_error + RecoverableSignature" where
  "toy_signRecoverable h d =
     (if length h \<noteq> 32 then Inl (TypeError (js ''Expected Hash''))
      else if length d \<noteq> 32 \<or> d = replicate 32 0 then Inl (TypeError (js ''Expected Private''))
      else Inr \<lparr>rs_signature = Uint8Array (d @ h), rs_recoveryId = 0\<rparr>)"

definition toy_verify :: "bytes \<Rightarrow> bytes \<Rightarrow> bytes \<Rightarrow> js_error + bool" where
  "toy_verify h q sg =
     (if length h \<noteq> 32 then Inl (TypeError (js ''Expected Hash''))
      else if length q \<noteq> 33 then Inl (TypeError (js ''Expected Point''))
      else if length sg \<noteq> 64 then Inl (TypeError (js ''Expected Signature''))
      else Inr (q = 2 # take 32 sg \<and> drop 32 sg = h))"

definition toy_recover :: "bytes \<Rightarrow> bytes \<Rightarrow> jsnumber \<Rightarrow> bool \<Rightarrow> js_error + bytes option" where
  "toy_recover h sg recoveryId compressed =
     (if length h \<noteq> 32 then Inl (TypeError (js ''Expected Hash''))
      else if length sg \<noteq> 64 \<or> take 32 sg = replicate 32 0
        then Inl (TypeError (js ''Expected Signature''))
      else if recoveryId \<noteq> Integer 0 \<and> recoveryId \<noteq> Integer 1
        then Inl (TypeError (js ''Expected Recovery Id''))
      else if drop 32 sg = h then Inr (Some (2 # take 32 sg)) else Inr None)"

definition ascii_lower :: "jsstring \<Rightarrow> jsstring" where
  "ascii_lower t = map (\<lambda>c. if 0x41 \<le> c \<and> c \<le> 0x5A then c + 0x20 else c) t"

definition toy :: externals where
  "toy = \<lparr>ecc_signRecoverable = toy_signRecoverable, ecc_verify = toy_verify,
          ecc_recover = toy_recover, toLowerCase = ascii_lower\<rparr>"

section \<open>Vocabulary of the statements\<close>

text \<open>
  The value of a list of digits in a radix and of a buffer read as a big-endian number;
  the half bytes of a buffer and their inverse; the decimal numeral of a buffer's value.
\<close>

definition digits_value :: "nat \<Rightarrow> nat list \<Rightarrow> nat" where
  "digits_value b ds = foldl (\<lambda>a d. a * b + d) 0 ds"

definition bytes_value :: "bytes \<Rightarrow> nat" where
  "bytes_value buf = foldl (\<lambda>a x. a * 256 + unat x) 0 buf"

definition is_decimal_digit :: "code_unit \<Rightarrow> bool" where
  "is_decimal_digit c = (0x30 \<le> c \<and> c \<le> 0x39)"

definition nibbles :: "bytes \<Rightarrow> nat list" where
  "nibbles buf = concat (map (\<lambda>x. [unat x div 16, unat x mod 16]) buf)"

fun pack :: "nat list \<Rightarrow> bytes" where
  "pack (x # y # r) = of_nat (16 * x + y) # pack r"
| "pack [x] = []"
| "pack [] = []"

definition decimal :: "bytes \<Rightarrow> jsstring" where
  "decimal buf = map digit_char (nat_digits 10 (bytes_value buf))"

text \<open>
  The place of \<open>salt\<close>, \<open>sig\<close> and \<open>hash\<close> in a draft, as \<open>signAndVerify\<close> chooses it
  (\<open>protocol.prv ? protocol.prv.k : protocol.k\<close>); the text that the self-check hashes; and
  the draft after the signature and the hash have been written into it.
\<close>

definition placed :: "jsobject \<Rightarrow> jsstring \<Rightarrow> jsvalue" where
  "placed protocol k =
     (if truthy (lookup protocol (js ''prv'')) then member (lookup protocol (js ''prv'')) k
      else lookup protocol k)"

definition test_message :: "jsobject \<Rightarrow> jsvalue \<Rightarrow> jsstring option \<Rightarrow> jsvalue" where
  "test_message protocol baseMessage messageKey =
     (case messageKey of
        None \<Rightarrow> baseMessage
      | Some k \<Rightarrow> if k = [] then baseMessage else stringified (computed_member protocol k))"

definition embed :: "jsobject \<Rightarrow> jsvalue \<Rightarrow> bytes \<Rightarrow> jsobject" where
  "embed protocol sg h =
     (case lookup protocol (js ''prv'') of
        JObject fs \<Rightarrow>
          set_prop protocol (js ''prv'')
            (JObject (set_prop (set_prop fs (js ''sig'') sg) (js ''hash'') (JString (toString_hex h))))
      | _ \<Rightarrow> set_prop (set_prop protocol (js ''sig'') sg) (js ''hash'') (JString (toString_hex h)))"

text \<open>The text that \<open>signMint\<close> signs: \<open>{p}-{op}-{tick}-{amt}-{prv.address}-\<close>.\<close>

definition mint_text :: "externals \<Rightarrow> jsstring \<Rightarrow> jsstring \<Rightarrow> jsstring \<Rightarrow> jsstring" where
  "mint_text E ticker amount address =
     js ''tap-token-mint-'' @ toLowerCase E ticker @ js ''-'' @ amount @ js ''-'' @ address @ js ''-''"

subsection \<open>Concrete inputs\<close>

text \<open>
  The private key, the public key, the hash and the draft of the repository's tests, and
  the public key of the README's first example, which belongs to another private key.
\<close>

definition test_privKey :: bytes where
  "test_privKey =
     [0x6c, 0x94, 0xb2, 0x9a, 0x47, 0xf0, 0xf4, 0xb7, 0x38, 0x0f, 0x2f, 0x39, 0x75, 0xa6, 0x12, 0xd4,
      0xf5, 0xdb, 0x4b, 0x56, 0xbb, 0xe8, 0x47, 0x1d, 0x25, 0x8b, 0xa3, 0xe1, 0x25, 0xdb, 0xdc, 0xe5]"

definition test_pubKey :: bytes where
  "test_pubKey =
     [0x03, 0x08, 0x79, 0x06, 0xbf, 0x94, 0x72, 0xc7, 0xdb, 0x48, 0xda, 0xee, 0x14, 0x78, 0xb7, 0xe7,
      0x0f, 0x4b, 0x3c, 0xe0, 0x14, 0x36, 0xa2, 0x41, 0xe3, 0x41, 0x8b, 0x72, 0xec, 0xdc, 0x87, 0x88,
      0x4b]"

definition other_pubKey :: bytes where
  "other_pubKey =
     [0x02, 0x82, 0x98, 0x47, 0x30, 0xb8, 0x85, 0x70, 0xf8, 0x6c, 0x56, 0xd4, 0x75, 0xd9, 0x02, 0x58,
      0xd1, 0xca, 0x97, 0x55, 0x37, 0x3e, 0x18, 0xfa, 0xbc, 0x13, 0x07, 0x91, 0x92, 0x3f, 0x9e, 0x0f,
      0x4a]"

definition test_hash :: bytes where
  "test_hash =
     [0x54, 0x71, 0xb8, 0x8a, 0x5e, 0x72, 0x1a, 0x74, 0xfa, 0x4d, 0x75, 0xa3, 0xc9, 0x5f, 0xa0, 0x45,
      0xe9, 0x51, 0x64, 0x3c, 0x94, 0x8f, 0xdd, 0x79, 0xaf, 0x5f, 0xa5, 0xd1, 0x0a, 0xc9, 0x9e, 0x1a]"

definition test_draft :: jsobject where
  "test_draft =
     [(js ''p'', JString (js ''tap'')),
      (js ''op'', JString (js ''privilege-auth'')),
      (js ''sig'', JNull),
      (js ''hash'', JNull),
      (js ''salt'', JString (js ''test_salt''))]"

subsection \<open>The run of the curve library that the repository records\<close>

text \<open>
  The repository's test of \<open>verify\<close> (\<open>should return a valid verification result\<close>)
  records one run of the curve library: for the hash and the public key above and the
  signature \<open>{v: "0", r: "3424\<dots>7843", s: "3670\<dots>0217"}\<close>, \<open>ecc.verify\<close> answers true and
  \<open>ecc.recover\<close> answers the public key. \<open>test_signature\<close> is the 64 bytes of that
  signature, \<open>r\<close> then \<open>s\<close>.

  \<open>recorded\<close> is a stand-in that has this run and nothing else of the cryptography: after
  the argument checks of the library (\<open>recover\<close> rejects a signature whose \<open>r\<close> or \<open>s\<close> is
  zero), \<open>verify\<close> answers true at the recorded arguments and false at all others, and
  \<open>recover\<close> answers the recorded key at the recorded hash and signature and no point at
  all others.
\<close>

definition test_signature :: bytes where
  "test_signature =
     [0x4b, 0xb8, 0x9d, 0x99, 0x6d, 0xbd, 0x77, 0x5b, 0x41, 0x83, 0x53, 0x02, 0xea, 0xd9, 0xe8, 0xef,
      0x91, 0x38, 0xfd, 0xe6, 0xaa, 0x5d, 0x01, 0x31, 0x93, 0x15, 0x19, 0xbf, 0xfc, 0x12, 0xfd, 0xb3,
      0x51, 0x26, 0xe4, 0xd8, 0x67, 0xec, 0xd3, 0x12, 0xea, 0x78, 0x1c, 0x27, 0x41, 0x53, 0xf2, 0x09,
      0x34, 0x52, 0xad, 0xfc, 0x49, 0x15, 0x40, 0xe8, 0x28, 0x0b, 0x22, 0xbd, 0x2d, 0x79, 0x42, 0x79]"

definition recorded_verify :: "bytes \<Rightarrow> bytes \<Rightarrow> bytes \<Rightarrow> js_error + bool" where
  "recorded_verify h q sg =
     (if length q \<noteq> 33 then Inl (TypeError (js ''Expected Point''))
      else if length h \<noteq> 32 then Inl (TypeError (js ''Expected Hash''))
      else if length sg \<noteq> 64 then Inl (TypeError (js ''Expected Signature''))
      else Inr (h = test_hash \<and> q = test_pubKey \<and> sg = test_signature))"

definition recorded_recover :: "bytes \<Rightarrow> bytes \<Rightarrow> jsnumber \<Rightarrow> bool \<Rightarrow> js_error + bytes option" where
  "recorded_recover h sg recoveryId compressed =
     (if length h \<noteq> 32 then Inl (TypeError (js ''Expected Hash''))
      else if length sg \<noteq> 64 \<or> take 32 sg = replicate 32 0 \<or> drop 32 sg = replicate 32 0
        then Inl (TypeError (js ''Expected Signature''))
      else if recoveryId \<noteq> Integer 0 \<and> recoveryId \<noteq> Integer 1
        then Inl (TypeError (js ''Expected Recovery Id''))
      else if h = test_hash \<and> sg = test_signature \<and> recoveryId = Integer 0
        then Inr (Some test_pubKey)
      else Inr None)"

definition recorded :: externals where
  "recorded = \<lparr>ecc_signRecoverable = toy_signRecoverable, ecc_verify = recorded_verify,
               ecc_recover = recorded_recover, toLowerCase = ascii_lower\<rparr>"

section \<open>Digits and numerals\<close>

lemma lt16_cases:
  "d < (16::nat) \<Longrightarrow> d = 0 \<or> d = 1 \<or> d = 2 \<or> d = 3 \<or> d = 4 \<or> d = 5 \<or> d = 6 \<or> d = 7 \<or> d = 8
     \<or> d = 9 \<or> d = 10 \<or> d = 11 \<or> d = 12 \<or> d = 13 \<or> d = 14 \<or> d = 15"
  by arith

lemma lt10_cases:
  "d < (10::nat) \<Longrightarrow> d = 0 \<or> d = 1 \<or> d = 2 \<or> d = 3 \<or> d = 4 \<or> d = 5 \<or> d = 6 \<or> d = 7 \<or> d = 8
     \<or> d = 9"
  by arith

lemma digit_value_digit_char: "d < 16 \<Longrightarrow> digit_value (digit_char d) = Some d"
  by (drule lt16_cases) (elim disjE, simp_all add: digit_value_def digit_char_def)

lemma low_byte_digit_char: "d < 16 \<Longrightarrow> low_byte (digit_char d) = digit_char d"
  by (drule lt16_cases) (elim disjE, simp_all add: low_byte_def digit_char_def)

lemma digit_char_not_white: "d < 16 \<Longrightarrow> \<not> is_white_space (digit_char d)"
  by (drule lt16_cases) (elim disjE, simp_all add: is_white_space_def digit_char_def)

lemma digit_char_not_prefix:
  "d < 16 \<Longrightarrow> digit_char d \<noteq> 0x2B \<and> digit_char d \<noteq> 0x2D \<and> digit_char d \<noteq> 0x78 \<and> digit_char d \<noteq> 0x58
     \<and> digit_char d \<noteq> 0x6F \<and> digit_char d \<noteq> 0x4F \<and> digit_char d \<noteq> 0x42
     \<and> (d < 10 \<longrightarrow> digit_char d \<noteq> 0x62)"
  by (drule lt16_cases) (elim disjE, simp_all add: digit_char_def)

lemma digit_char_0: "digit_char 0 = 0x30"
  by (simp add: digit_char_def)

subsection \<open>Values of digit lists\<close>

lemma foldl_digits_acc:
  "foldl (\<lambda>a d. a * b + d) acc ds = acc * b ^ length ds + foldl (\<lambda>a d. a * b + d) (0::nat) ds"
proof (induction ds arbitrary: acc)
  case Nil
  show ?case by simp
next
  case (Cons x xs)
  have a: "foldl (\<lambda>a d. a * b + d) (acc * b + x) xs
             = (acc * b + x) * b ^ length xs + foldl (\<lambda>a d. a * b + d) 0 xs"
    by (rule Cons.IH)
  have b: "foldl (\<lambda>a d. a * b + d) x xs = x * b ^ length xs + foldl (\<lambda>a d. a * b + d) 0 xs"
    by (rule Cons.IH)
  show ?case using a b by (simp add: algebra_simps)
qed

lemma digits_value_snoc: "digits_value b (xs @ [x]) = digits_value b xs * b + x"
  by (simp add: digits_value_def)

lemma digits_value_append:
  "digits_value b (xs @ ys) = digits_value b xs * b ^ length ys + digits_value b ys"
  unfolding digits_value_def foldl_append by (rule foldl_digits_acc)

lemma digits_value_replicate_0: "digits_value b (replicate k 0) = 0"
  by (induction k) (simp_all add: digits_value_def)

lemma digits_value_lt:
  "2 \<le> b \<Longrightarrow> list_all (\<lambda>d. d < b) ds \<Longrightarrow> digits_value b ds < b ^ length ds"
proof (induction ds rule: rev_induct)
  case Nil
  show ?case by (simp add: digits_value_def)
next
  case (snoc x xs)
  then have v: "digits_value b xs < b ^ length xs" and x: "x < b" by simp_all
  have "digits_value b xs * b + x < (digits_value b xs + 1) * b" using x by simp
  also have "\<dots> \<le> b ^ length xs * b" using v by (intro mult_le_mono1) simp
  finally show ?case by (simp add: digits_value_snoc mult.commute)
qed

lemma digits_value_0_iff:
  "0 < b \<Longrightarrow> (digits_value b ds = 0) = (dropWhile (\<lambda>d. d = 0) ds = [])"
proof (induction ds rule: rev_induct)
  case Nil
  show ?case by (simp add: digits_value_def)
next
  case (snoc x xs)
  then show ?case by (auto simp: digits_value_snoc dropWhile_append)
qed

subsection \<open>The digits of a number\<close>

lemma nat_digits_ne: "nat_digits b n \<noteq> []"
  by (subst nat_digits.simps) simp

lemma nat_digits_small: "n < b \<Longrightarrow> nat_digits b n = [n]"
  by (subst nat_digits.simps) simp

lemma nat_digits_step:
  "2 \<le> b \<Longrightarrow> b \<le> n \<Longrightarrow> nat_digits b n = nat_digits b (n div b) @ [n mod b]"
  by (subst nat_digits.simps) simp

lemma nat_digits_lt: "2 \<le> b \<Longrightarrow> list_all (\<lambda>d. d < b) (nat_digits b n)"
proof (induction b n rule: nat_digits.induct)
  case (1 b n)
  show ?case
  proof (cases "n < b")
    case True
    then show ?thesis by (simp add: nat_digits_small)
  next
    case False
    with 1 show ?thesis by (simp add: nat_digits_step)
  qed
qed

lemma digits_value_nat_digits: "2 \<le> b \<Longrightarrow> digits_value b (nat_digits b n) = n"
proof (induction b n rule: nat_digits.induct)
  case (1 b n)
  show ?case
  proof (cases "n < b")
    case True
    then show ?thesis by (simp add: nat_digits_small digits_value_def)
  next
    case False
    with 1 show ?thesis by (simp add: nat_digits_step digits_value_snoc)
  qed
qed

lemma nat_digits_length_le:
  "2 \<le> b \<Longrightarrow> n < b ^ k \<Longrightarrow> 0 < k \<Longrightarrow> length (nat_digits b n) \<le> k"
proof (induction b n arbitrary: k rule: nat_digits.induct)
  case (1 b n)
  show ?case
  proof (cases "n < b")
    case True
    then show ?thesis using "1.prems" by (simp add: nat_digits_small)
  next
    case False
    obtain j where k: "k = Suc j" using "1.prems" by (cases k) auto
    have "j \<noteq> 0" using False "1.prems" k by (cases j) auto
    have "n div b < b ^ j" using "1.prems" k by (simp add: less_mult_imp_div_less mult.commute)
    then have "length (nat_digits b (n div b)) \<le> j"
      using "1.IH"[of j] False "1.prems" \<open>j \<noteq> 0\<close> by simp
    then show ?thesis using False "1.prems" k by (simp add: nat_digits_step)
  qed
qed

lemma nat_digits_length_ge:
  assumes "2 \<le> b" and "b ^ k \<le> n"
  shows "k < length (nat_digits b n)"
proof (rule ccontr)
  assume "\<not> k < length (nat_digits b n)"
  then have le: "length (nat_digits b n) \<le> k" by simp
  have "n = digits_value b (nat_digits b n)" using assms by (simp add: digits_value_nat_digits)
  also have "\<dots> < b ^ length (nat_digits b n)" using assms by (intro digits_value_lt nat_digits_lt)
  also have "\<dots> \<le> b ^ k" using le assms by (intro power_increasing) auto
  finally show False using assms by simp
qed

lemma dropWhile_snoc:
  "dropWhile P (xs @ [x]) = (if dropWhile P xs = [] then dropWhile P [x] else dropWhile P xs @ [x])"
  by (induction xs) auto

lemma nat_digits_digits_value:
  "2 \<le> b \<Longrightarrow> list_all (\<lambda>d. d < b) ds \<Longrightarrow>
   nat_digits b (digits_value b ds) =
     (if dropWhile (\<lambda>d. d = 0) ds = [] then [0] else dropWhile (\<lambda>d. d = 0) ds)"
proof (induction ds rule: rev_induct)
  case Nil
  then show ?case by (simp add: digits_value_def nat_digits_small)
next
  case (snoc x xs)
  then have x: "x < b" and xs: "list_all (\<lambda>d. d < b) xs" by simp_all
  let ?v = "digits_value b xs"
  show ?case
  proof (cases "?v = 0")
    case True
    then have z: "dropWhile (\<lambda>d. d = 0) xs = []" using snoc.prems by (simp add: digits_value_0_iff)
    show ?thesis using True z x by (simp add: digits_value_snoc nat_digits_small dropWhile_snoc)
  next
    case False
    then have nz: "dropWhile (\<lambda>d. d = 0) xs \<noteq> []" using snoc.prems by (simp add: digits_value_0_iff)
    have ge: "b \<le> ?v * b + x" using False by (cases ?v) auto
    have "nat_digits b (?v * b + x) = nat_digits b ?v @ [x]"
      using snoc.prems ge x by (simp add: nat_digits_step)
    then show ?thesis using snoc.IH[OF snoc.prems(1) xs] nz
      by (simp add: digits_value_snoc dropWhile_snoc)
  qed
qed

lemma pad_stripped:
  "replicate (length ds - length (dropWhile (\<lambda>d. d = 0) ds)) (0::nat) @ dropWhile (\<lambda>d. d = 0) ds = ds"
proof -
  have "takeWhile (\<lambda>d. d = 0) ds = replicate (length (takeWhile (\<lambda>d. d = 0) ds)) (0::nat)"
    by (induction ds) auto
  moreover have "length (takeWhile (\<lambda>d. d = 0) ds) + length (dropWhile (\<lambda>d. d = 0) ds) = length ds"
    by (induction ds) auto
  then have "length (takeWhile (\<lambda>d. d = 0) ds) = length ds - length (dropWhile (\<lambda>d. d = 0) ds)"
    by arith
  ultimately show ?thesis by (metis takeWhile_dropWhile_id)
qed

lemma pad_nat_digits:
  assumes "2 \<le> b" and "list_all (\<lambda>d. d < b) ds" and "ds \<noteq> []"
  shows "replicate (length ds - length (nat_digits b (digits_value b ds))) 0
           @ nat_digits b (digits_value b ds) = ds"
proof (cases "dropWhile (\<lambda>d. d = 0) ds = []")
  case True
  then have all0: "\<forall>d\<in>set ds. d = 0" by simp
  have r: "replicate (length ds) 0 = ds" using all0 by (simp add: replicate_length_same)
  obtain k where k: "length ds = Suc k" using assms(3) by (cases ds) auto
  have nd: "nat_digits b (digits_value b ds) = [0]"
    by (simp only: nat_digits_digits_value[OF assms(1,2)] True) simp
  have e: "replicate (length ds - 1) (0::nat) @ [0] = replicate (length ds) 0"
    using k by (simp add: replicate_append_same)
  show ?thesis unfolding nd using e r by simp
next
  case False
  have "nat_digits b (digits_value b ds) = dropWhile (\<lambda>d. d = 0) ds"
    by (simp only: nat_digits_digits_value[OF assms(1,2)] False if_False)
  then show ?thesis by (simp only: pad_stripped)
qed

subsection \<open>Hexadecimal text and buffers\<close>

lemma toString_hex_nibbles: "toString_hex buf = map digit_char (nibbles buf)"
  by (simp add: toString_hex_def nibbles_def map_concat comp_def)

lemma unat_byte_lt: "unat (x :: byte) < 256"
proof -
  have "unat x < 2 ^ LENGTH(8)" by (rule unsigned_less)
  then show ?thesis by simp
qed

lemma nibbles_lt: "list_all (\<lambda>d. d < 16) (nibbles buf)"
proof (induction buf)
  case Nil
  show ?case by (simp add: nibbles_def)
next
  case (Cons x xs)
  have "unat x div 16 < 16" using unat_byte_lt[of x] by simp
  with Cons show ?case by (simp add: nibbles_def)
qed

lemma length_nibbles: "length (nibbles buf) = 2 * length buf"
  by (induction buf) (simp_all add: nibbles_def)

lemma nibbles_value_acc:
  "foldl (\<lambda>a d. a * 16 + d) acc (nibbles buf) = foldl (\<lambda>a x. a * 256 + unat x) acc buf"
proof (induction buf arbitrary: acc)
  case Nil
  show ?case by (simp add: nibbles_def)
next
  case (Cons x xs)
  have e: "(acc * 16 + unat x div 16) * 16 + unat x mod 16 = acc * 256 + unat x"
    by simp
  have "foldl (\<lambda>a d. a * 16 + d) acc (nibbles (x # xs)) =
          foldl (\<lambda>a d. a * 16 + d) ((acc * 16 + unat x div 16) * 16 + unat x mod 16) (nibbles xs)"
    by (simp add: nibbles_def)
  also have "\<dots> = foldl (\<lambda>a d. a * 16 + d) (acc * 256 + unat x) (nibbles xs)"
    by (simp only: e)
  also have "\<dots> = foldl (\<lambda>a x. a * 256 + unat x) (acc * 256 + unat x) xs"
    by (rule Cons)
  finally show ?case by simp
qed

lemma digits_value_nibbles: "digits_value 16 (nibbles buf) = bytes_value buf"
  by (simp add: digits_value_def bytes_value_def nibbles_value_acc)

lemma Buffer_from_hex_digits:
  "list_all (\<lambda>d. d < 16) ds \<Longrightarrow> Buffer_from_hex (map digit_char ds) = pack ds"
  by (induction ds rule: pack.induct) (simp_all add: digit_value_digit_char low_byte_digit_char)

lemma pack_nibbles: "pack (nibbles buf) = buf"
  by (induction buf) (simp_all add: nibbles_def)

lemma length_pack: "length (pack ds) = length ds div 2"
  by (induction ds rule: pack.induct) simp_all

lemma pack_value_acc:
  "list_all (\<lambda>d. d < 16) ds \<Longrightarrow>
   foldl (\<lambda>a x. a * 256 + unat x) acc (pack ds) =
     foldl (\<lambda>a d. a * 16 + d) acc (take (2 * (length ds div 2)) ds)"
proof (induction ds arbitrary: acc rule: pack.induct)
  case (1 x y r)
  then have "16 * x + y < 256" by simp
  then have "unat (of_nat (16 * x + y) :: byte) = 16 * x + y"
    by (subst unat_of_nat) simp
  with 1 show ?case by (simp add: algebra_simps)
qed simp_all

lemma bytes_value_pack:
  "list_all (\<lambda>d. d < 16) ds \<Longrightarrow>
   bytes_value (pack ds) = digits_value 16 (take (2 * (length ds div 2)) ds)"
  by (simp add: bytes_value_def digits_value_def pack_value_acc)

lemma digits_value_butlast: "ds \<noteq> [] \<Longrightarrow> last ds < b \<Longrightarrow> digits_value b (butlast ds) = digits_value b ds div b"
proof -
  assume a: "ds \<noteq> []" "last ds < b"
  then have "digits_value b ds = digits_value b (butlast ds) * b + last ds"
    using digits_value_snoc[of b "butlast ds" "last ds"] by simp
  then show ?thesis using a by simp
qed

lemma take_even_odd:
  "take (2 * (length ds div 2)) ds = (if even (length ds) then ds else butlast ds)"
proof (cases "even (length ds)")
  case True
  then have "2 * (length ds div 2) = length ds" by simp
  then show ?thesis using True by simp
next
  case False
  then have "2 * (length ds div 2) = length ds - 1" by (simp add: odd_two_times_div_two_nat)
  then show ?thesis using False by (simp add: butlast_conv_take)
qed

lemma bytes_value_pack_cases:
  assumes "list_all (\<lambda>d. d < 16) ds"
  shows "bytes_value (pack ds) =
           (if even (length ds) then digits_value 16 ds else digits_value 16 ds div 16)"
proof (cases "even (length ds)")
  case True
  then show ?thesis using assms by (simp add: bytes_value_pack take_even_odd)
next
  case False
  then have ne: "ds \<noteq> []" by auto
  then have "last ds \<in> set ds" by simp
  then have "last ds < 16" using assms by (simp add: list_all_iff)
  then have "digits_value 16 (butlast ds) = digits_value 16 ds div 16"
    using ne by (rule digits_value_butlast[rotated])
  then show ?thesis using False
    by (simp only: bytes_value_pack[OF assms] take_even_odd if_False)
qed

subsection \<open>\<open>fromBigInt\<close> of a natural number\<close>

lemma BigInt_toString_nat: "BigInt_toString b (int n) = map digit_char (nat_digits b n)"
  by (simp add: BigInt_toString_def)

lemma fromBigInt_nat:
  "fromBigInt (int n) len =
     pack (replicate (len - length (nat_digits 16 n)) 0 @ nat_digits 16 n)"
proof -
  have "padStart len 0x30 (map digit_char (nat_digits 16 n)) =
          map digit_char (replicate (len - length (nat_digits 16 n)) 0 @ nat_digits 16 n)"
    by (simp add: padStart_def digit_char_0)
  moreover have "list_all (\<lambda>d. d < 16) (replicate (len - length (nat_digits 16 n)) 0 @ nat_digits 16 n)"
    using nat_digits_lt[of 16 n] by (auto simp: list_all_iff)
  ultimately show ?thesis
    by (simp only: fromBigInt_def BigInt_toString_nat Buffer_from_hex_digits)
qed

lemma fromBigInt_length:
  "length (fromBigInt (int n) len) = max len (length (nat_digits 16 n)) div 2"
  by (simp add: fromBigInt_nat length_pack max_def)

lemma fromBigInt_value:
  "bytes_value (fromBigInt (int n) len) =
     (if even (max len (length (nat_digits 16 n))) then n else n div 16)"
proof -
  let ?ds = "replicate (len - length (nat_digits 16 n)) 0 @ nat_digits 16 n"
  have lt: "list_all (\<lambda>d. d < 16) ?ds"
    using nat_digits_lt[of 16 n] by (auto simp: list_all_iff)
  have len: "length ?ds = max len (length (nat_digits 16 n))" by (simp add: max_def)
  have v: "digits_value 16 ?ds = n"
    by (simp add: digits_value_append digits_value_replicate_0 digits_value_nat_digits)
  show ?thesis
    unfolding fromBigInt_nat bytes_value_pack_cases[OF lt] len v ..
qed

lemma fromBigInt_bytes_value:
  assumes "buf \<noteq> []" and "len = 2 * length buf"
  shows "fromBigInt (int (bytes_value buf)) len = buf"
proof -
  have ne: "nibbles buf \<noteq> []" using assms(1) by (cases buf) (simp_all add: nibbles_def)
  have "replicate (length (nibbles buf) - length (nat_digits 16 (digits_value 16 (nibbles buf)))) 0
          @ nat_digits 16 (digits_value 16 (nibbles buf)) = nibbles buf"
    by (rule pad_nat_digits[OF _ nibbles_lt ne]) simp
  then show ?thesis
    by (simp add: fromBigInt_nat digits_value_nibbles length_nibbles assms(2) pack_nibbles)
qed

subsection \<open>\<open>BigInt\<close> of numerals\<close>

lemma parse_digits_digits:
  "b \<le> 16 \<Longrightarrow> list_all (\<lambda>d. d < b) ds \<Longrightarrow>
   parse_digits b (map digit_char ds) acc = Some (foldl (\<lambda>a d. a * b + d) acc ds)"
  by (induction ds arbitrary: acc) (simp_all add: digit_value_digit_char)

lemma parse_radix_digits:
  "b \<le> 16 \<Longrightarrow> list_all (\<lambda>d. d < b) ds \<Longrightarrow> ds \<noteq> [] \<Longrightarrow>
   parse_radix b (map digit_char ds) = Some (digits_value b ds)"
  by (simp add: parse_radix_def parse_digits_digits digits_value_def)

lemma trim_id: "t \<noteq> [] \<Longrightarrow> \<not> is_white_space (hd t) \<Longrightarrow> \<not> is_white_space (last t) \<Longrightarrow> trim t = t"
proof -
  assume a: "t \<noteq> []" "\<not> is_white_space (hd t)" "\<not> is_white_space (last t)"
  then have 1: "dropWhile is_white_space t = t" by (cases t) auto
  have "rev t \<noteq> []" "\<not> is_white_space (hd (rev t))" using a by (simp_all add: hd_rev)
  then have 2: "dropWhile is_white_space (rev t) = rev t" by (cases "rev t") auto
  show ?thesis by (simp add: trim_def 1 2)
qed

lemma StringToBigInt_hex:
  assumes "list_all (\<lambda>d. d < 16) ds" and "ds \<noteq> []"
  shows "StringToBigInt (js ''0x'' @ map digit_char ds) = Some (int (digits_value 16 ds))"
proof -
  let ?t = "js ''0x'' @ map digit_char ds"
  have l: "last ds < 16" using assms by (simp add: list_all_iff)
  have "last ?t = digit_char (last ds)" using assms(2) by (simp add: last_map)
  then have "\<not> is_white_space (last ?t)" using l by (simp add: digit_char_not_white)
  moreover have "\<not> is_white_space (hd ?t)" by (simp add: js_def is_white_space_def)
  ultimately have t: "trim ?t = ?t" by (intro trim_id) (simp_all add: js_def)
  have e: "?t = 0x30 # 0x78 # map digit_char ds" by (simp add: js_def)
  show ?thesis
    unfolding StringToBigInt_def t unfolding e
    using assms by (simp add: parse_radix_digits)
qed

lemma StringToBigInt_decimal:
  assumes "list_all (\<lambda>d. d < 10) ds" and "ds \<noteq> []"
  shows "StringToBigInt (map digit_char ds) = Some (int (digits_value 10 ds))"
proof -
  obtain d r where ds: "ds = d # r" using assms(2) by (cases ds) auto
  have d: "d < 10" and r: "list_all (\<lambda>d. d < 10) r" using assms(1) ds by simp_all
  have l: "last ds < 10" using assms by (simp add: list_all_iff)
  have "last (map digit_char ds) = digit_char (last ds)" using assms(2) by (simp add: last_map)
  then have "\<not> is_white_space (last (map digit_char ds))" using l by (simp add: digit_char_not_white)
  moreover have "\<not> is_white_space (hd (map digit_char ds))" using d ds by (simp add: digit_char_not_white)
  ultimately have t: "trim (map digit_char ds) = map digit_char ds" using assms(2) by (intro trim_id) simp_all
  have p: "digit_char d \<noteq> 0x2B" "digit_char d \<noteq> 0x2D"
    using digit_char_not_prefix[of d] d by simp_all
  have q: "r \<noteq> [] \<Longrightarrow> hd (map digit_char r) \<noteq> 0x78 \<and> hd (map digit_char r) \<noteq> 0x58
      \<and> hd (map digit_char r) \<noteq> 0x6F \<and> hd (map digit_char r) \<noteq> 0x4F
      \<and> hd (map digit_char r) \<noteq> 0x62 \<and> hd (map digit_char r) \<noteq> 0x42"
  proof -
    assume "r \<noteq> []"
    then obtain x r' where "r = x # r'" by (cases r) auto
    then have "x < 10" using r by simp
    then show ?thesis using digit_char_not_prefix[of x] \<open>r = x # r'\<close> by simp
  qed
  have "parse_radix 10 (map digit_char ds) = Some (digits_value 10 ds)"
    using assms by (simp add: parse_radix_digits)
  then show ?thesis
    unfolding StringToBigInt_def t using p q ds by (cases "r = []") auto
qed

lemma BigInt_decimal:
  "BigInt (map digit_char (nat_digits 10 n)) = Inr (int n)"
  using StringToBigInt_decimal[OF nat_digits_lt[of 10 n] nat_digits_ne]
  by (simp add: BigInt_def digits_value_nat_digits)

lemma toBigInt_value: "buf \<noteq> [] \<Longrightarrow> toBigInt buf = Inr (int (bytes_value buf))"
proof -
  assume "buf \<noteq> []"
  then have "nibbles buf \<noteq> []" by (cases buf) (simp_all add: nibbles_def)
  then show ?thesis
    using StringToBigInt_hex[OF nibbles_lt, of buf]
    by (simp add: toBigInt_def BigInt_def toString_hex_nibbles digits_value_nibbles)
qed

lemma toBigIntStr_value:
  "buf \<noteq> [] \<Longrightarrow> toBigIntStr buf = Inr (map digit_char (nat_digits 10 (bytes_value buf)))"
  by (simp add: toBigIntStr_def toBigInt_value BigInt_toString_nat)

lemma decimal_string_digits:
  assumes "list_all is_decimal_digit t"
  shows "t = map digit_char (map (\<lambda>c. unat c - 0x30) t) \<and> list_all (\<lambda>d. d < 10) (map (\<lambda>c. unat c - 0x30) t)"
  using assms
proof (induction t)
  case Nil
  show ?case by simp
next
  case (Cons c t)
  then have c: "0x30 \<le> c" "c \<le> 0x39" by (simp_all add: is_decimal_digit_def)
  have u: "48 \<le> unat c" "unat c \<le> 57" using c by (simp_all add: word_le_nat_alt)
  then have lt: "unat c - 48 < 10" by arith
  have "digit_char (unat c - 48) = of_nat (48 + (unat c - 48))" using lt by (simp add: digit_char_def)
  also have "48 + (unat c - 48) = unat c" using u by arith
  finally have "digit_char (unat c - 48) = c" by simp
  with Cons lt show ?case by simp
qed

lemma fromBigIntStr_decimal_value:
  "buf \<noteq> [] \<Longrightarrow> len = 2 * length buf \<Longrightarrow>
   fromBigIntStr (map digit_char (nat_digits 10 (bytes_value buf))) len = Inr buf"
  by (simp add: fromBigIntStr_def BigInt_decimal fromBigInt_bytes_value)

section \<open>Objects\<close>

lemma key_not_index:
  "array_index (js ''v'') = None" "array_index (js ''r'') = None" "array_index (js ''s'') = None"
  "array_index (js ''sig'') = None" "array_index (js ''hash'') = None"
  "array_index (js ''prv'') = None"
  by (simp_all add: array_index_def parse_radix_def digit_value_def js_def)

lemma key_neq:
  "js ''sig'' \<noteq> js ''hash''" "js ''hash'' \<noteq> js ''sig''" "js ''prv'' \<noteq> js ''sig''"
  "js ''prv'' \<noteq> js ''hash''" "js ''sig'' \<noteq> js ''prv''" "js ''hash'' \<noteq> js ''prv''"
  "js ''salt'' \<noteq> js ''sig''" "js ''salt'' \<noteq> js ''hash''" "js ''salt'' \<noteq> js ''prv''"
  by (simp_all add: js_def)

lemma map_of_replace_prop:
  "k \<in> fst ` set fs \<Longrightarrow> map_of (replace_prop fs k v) = (map_of fs)(k \<mapsto> v)"
  by (induction fs) (force simp: fun_upd_twist)+

lemma map_of_insert_index:
  "k \<notin> fst ` set fs \<Longrightarrow> map_of (insert_index n k v fs) = (map_of fs)(k \<mapsto> v)"
proof (induction fs)
  case Nil
  show ?case by simp
next
  case (Cons p fs)
  obtain k' v' where p: "p = (k', v')" by (cases p)
  with Cons show ?case by (auto simp: fun_upd_twist split: option.splits)
qed

lemma map_of_append_new: "k \<notin> fst ` set fs \<Longrightarrow> map_of (fs @ [(k, v)]) = (map_of fs)(k \<mapsto> v)"
proof -
  assume "k \<notin> fst ` set fs"
  then have "map_of fs k = None" by (simp add: map_of_eq_None_iff)
  then show ?thesis by (auto simp: map_add_def fun_eq_iff split: option.splits)
qed

lemma map_of_set_prop: "map_of (set_prop fs k v) = (map_of fs)(k \<mapsto> v)"
  by (simp add: set_prop_def map_of_replace_prop map_of_insert_index map_of_append_new
      del: map_of_append split: option.splits)

lemma lookup_set_prop: "lookup (set_prop fs k v) k' = (if k' = k then v else lookup fs k')"
  by (simp add: lookup_def map_of_set_prop)

lemma lookup_absent: "k \<notin> fst ` set fs \<Longrightarrow> lookup fs k = JUndefined"
  by (simp add: lookup_def map_of_eq_None_iff[THEN iffD2])

lemma filter_replace_prop:
  "filter (\<lambda>p. fst p \<noteq> k) (replace_prop fs k v) = filter (\<lambda>p. fst p \<noteq> k) fs"
  by (induction fs) auto

lemma filter_insert_index:
  "filter (\<lambda>p. fst p \<noteq> k) (insert_index n k v fs) = filter (\<lambda>p. fst p \<noteq> k) fs"
proof (induction fs)
  case Nil
  show ?case by simp
next
  case (Cons p fs)
  obtain k' v' where p: "p = (k', v')" by (cases p)
  with Cons show ?case by (auto split: option.splits)
qed

lemma filter_set_prop:
  "filter (\<lambda>p. fst p \<noteq> k) (set_prop fs k v) = filter (\<lambda>p. fst p \<noteq> k) fs"
  by (simp add: set_prop_def filter_replace_prop filter_insert_index split: option.splits)

lemma filter_set_prop_other:
  "P (k, v) = False \<Longrightarrow> (\<And>x. P (k, x) = False) \<Longrightarrow> filter P (set_prop fs k v) = filter P fs"
proof -
  assume a: "P (k, v) = False" "\<And>x. P (k, x) = False"
  have "filter P fs' = filter P (filter (\<lambda>p. fst p \<noteq> k) fs')" for fs'
    using a(2) by (induction fs') auto
  then show ?thesis by (metis filter_set_prop)
qed

section \<open>Signatures\<close>

lemma Signature_eq:
  "Signature v r s = JObject [(js ''v'', JString v), (js ''r'', JString r), (js ''s'', JString s)]"
  by (simp add: Signature_def object_literal_def set_prop_def key_not_index) (simp add: js_def)

lemma joinSignature_Signature:
  "joinSignature (Signature v r s) =
     (case fromBigIntStr r 64 of
        Inl e \<Rightarrow> Inl e
      | Inr a \<Rightarrow>
          (case fromBigIntStr s 64 of
             Inl e \<Rightarrow> Inl e
           | Inr b \<Rightarrow> Inr \<lparr>joined_signature = a @ b, joined_recoveryId = Number v\<rparr>))"
  by (simp add: joinSignature_def Signature_eq lookup_def default_length_def js_def split: sum.splits)

lemma Number_Number_toString:
  "int n \<le> 9007199254740992 \<Longrightarrow> Number (Number_toString n) = Integer n"
  using parse_radix_digits[OF _ nat_digits_lt[of 10 n] nat_digits_ne]
  by (simp add: Number_def Number_toString_def digits_value_nat_digits)

lemma Number_toString_0: "Number_toString 0 = js ''0''"
  by (simp add: Number_toString_def nat_digits_small digit_char_0 js_def)

lemma Number_0: "Number (js ''0'') = Integer 0"
  using Number_Number_toString[of 0] by (simp add: Number_toString_0)

lemma splitSignature_number:
  assumes "length b = 64"
  shows "splitSignature \<lparr>rs_signature = Uint8Array b, rs_recoveryId = rid\<rparr> Format_number =
           Inr (Signature (Number_toString rid)
                  (map digit_char (nat_digits 10 (bytes_value (take 32 b))))
                  (map digit_char (nat_digits 10 (bytes_value (drop 32 b)))))"
proof -
  have r: "take 32 b \<noteq> []" and s: "drop 32 b \<noteq> []" using assms by auto
  show ?thesis
    using assms by (simp add: splitSignature_def slice_def toBigIntStr_value[OF r] toBigIntStr_value[OF s])
qed


lemma joinSignature_split:
  assumes "length b = 64"
  shows "joinSignature (Signature v
            (map digit_char (nat_digits 10 (bytes_value (take 32 b))))
            (map digit_char (nat_digits 10 (bytes_value (drop 32 b))))) =
         Inr \<lparr>joined_signature = b, joined_recoveryId = Number v\<rparr>"
proof -
  have r: "take 32 b \<noteq> []" "64 = 2 * length (take 32 b)"
    and s: "drop 32 b \<noteq> []" "64 = 2 * length (drop 32 b)" using assms by auto
  show ?thesis
    by (simp add: joinSignature_Signature fromBigIntStr_decimal_value[OF r]
        fromBigIntStr_decimal_value[OF s])
qed

section \<open>The hash and the text it is taken of\<close>

lemma length_bcSha256: "length (bcSha256 m) = 32"
  by (simp add: bcSha256_def word_bytes_def split: prod.splits)

lemma high_surrogate_large: "is_high_surrogate c \<Longrightarrow> \<not> c < 0x80 \<and> \<not> c < 0x800"
  by (auto simp: is_high_surrogate_def word_le_nat_alt word_less_nat_alt)

lemma utf8_append:
  "\<not> (m \<noteq> [] \<and> is_high_surrogate (last m) \<and> t \<noteq> [] \<and> is_low_surrogate (hd t)) \<Longrightarrow>
   utf8 (m @ t) = utf8 m @ utf8 t"
proof (induction m rule: utf8.induct)
  case 1
  show ?case by simp
next
  case (2 c cs)
  show ?case
  proof (cases "is_high_surrogate c")
    case False
    with 2 show ?thesis by (cases "cs = []") auto
  next
    case True
    show ?thesis
    proof (cases cs)
      case Nil
      with True "2.prems" high_surrogate_large[OF True] show ?thesis by (cases t) auto
    next
      case (Cons d ds)
      show ?thesis
      proof (cases "is_low_surrogate d")
        case low: True
        have "\<not> (ds \<noteq> [] \<and> is_high_surrogate (last ds) \<and> t \<noteq> [] \<and> is_low_surrogate (hd t))"
          using "2.prems" Cons by auto
        then have "utf8 (ds @ t) = utf8 ds @ utf8 t"
          using "2.IH"(3) True Cons low high_surrogate_large[OF True] by simp
        then show ?thesis using True Cons low high_surrogate_large[OF True] by simp
      next
        case notlow: False
        have "utf8 (cs @ t) = utf8 cs @ utf8 t"
          using "2.IH"(4) "2.prems" True Cons notlow high_surrogate_large[OF True] by simp
        then show ?thesis using True Cons notlow high_surrogate_large[OF True] by simp
      qed
    qed
  qed
qed

section \<open>\<open>sign\<close>, \<open>verify\<close> and \<open>signAndVerify\<close>\<close>

lemma sign_Inr:
  "sign E message privKey salt = Inr (sg, h) \<Longrightarrow>
   \<exists>m key st rs. message = JString m \<and> privKey = Buffer key \<and> salt = JString st
     \<and> h = bcSha256 (utf8 (m @ st))
     \<and> ecc_signRecoverable E h key = Inr rs
     \<and> splitSignature rs Format_number = Inr sg"
  by (auto simp: sign_def sign_try_def Let_def split: jsvalue.splits buffer_value.splits sum.splits)

lemma verify_Inr:
  "verify E h q sg protocol = Inr res \<Longrightarrow>
   \<exists>joined. joinSignature sg = Inr joined \<and> ecc_verify E h q (joined_signature joined) = Inr (valid res)
     \<and> result res = stringified protocol"
  by (auto simp: verify_def split: sum.splits)

lemma member_salt_string:
  "member v k = JString st \<Longrightarrow> \<exists>fs. v = JObject fs"
  by (cases v) simp_all

lemma signAndVerify_nested_is_object:
  "sign E baseMessage privKey (member v (js ''salt'')) = Inr r \<Longrightarrow> \<exists>fs. v = JObject fs"
proof -
  assume a: "sign E baseMessage privKey (member v (js ''salt'')) = Inr r"
  obtain sg h where "r = (sg, h)" by (cases r)
  with a obtain st where "member v (js ''salt'') = JString st" using sign_Inr by blast
  then show ?thesis by (rule member_salt_string)
qed

lemma signAndVerify_unfold:
  "signAndVerify E protocol keypair baseMessage messageKey =
     (case sign E baseMessage (Buffer (privKeyBuffer keypair)) (placed protocol (js ''salt'')) of
        Inl e \<Rightarrow> (protocol, Inl e)
      | Inr (sg, h) \<Rightarrow>
          (embed protocol sg h,
           verify E
             (bcSha256 (utf8 (ToString (test_message (embed protocol sg h) baseMessage messageKey)
                               @ ToString (placed protocol (js ''salt'')))))
             (pubKeyBuffer keypair) sg (JObject (embed protocol sg h))))"
proof (cases "sign E baseMessage (Buffer (privKeyBuffer keypair)) (placed protocol (js ''salt''))")
  case (Inl e)
  then show ?thesis by (simp add: signAndVerify_def placed_def Let_def)
next
  case (Inr p)
  obtain sg h where p: "p = (sg, h)" by (cases p)
  from Inr p obtain st where st: "placed protocol (js ''salt'') = JString st"
    using sign_Inr by blast
  show ?thesis
  proof (cases "truthy (lookup protocol (js ''prv''))")
    case True
    then have "member (lookup protocol (js ''prv'')) (js ''salt'') = JString st"
      using st by (simp add: placed_def)
    then obtain fs where fs: "lookup protocol (js ''prv'') = JObject fs"
      using member_salt_string by blast
    show ?thesis
      using Inr p True fs
      by (simp add: signAndVerify_def placed_def Let_def embed_def test_message_def
          lookup_set_prop key_neq split: option.splits)
  next
    case False
    then have "lookup (embed protocol sg h) (js ''prv'') = lookup protocol (js ''prv'')"
      by (cases "lookup protocol (js ''prv'')") (simp_all add: embed_def lookup_set_prop key_neq)
    moreover have "embed protocol sg h =
        set_prop (set_prop protocol (js ''sig'') sg) (js ''hash'') (JString (toString_hex h))"
      using False by (cases "lookup protocol (js ''prv'')") (simp_all add: embed_def)
    ultimately show ?thesis
      using Inr p False
      by (simp add: signAndVerify_def placed_def Let_def test_message_def lookup_set_prop key_neq
          split: option.splits)
  qed
qed


subsection \<open>On the stand-in curve library\<close>

lemma sign_toy:
  assumes "length K = 32" and "K \<noteq> replicate 32 0"
  shows "sign toy (JString m) (Buffer K) (JString st) =
           Inr (Signature (js ''0'') (decimal K) (decimal (bcSha256 (utf8 (m @ st)))),
                bcSha256 (utf8 (m @ st)))"
proof -
  let ?h = "bcSha256 (utf8 (m @ st))"
  have l: "length (K @ ?h) = 64" using assms by (simp add: length_bcSha256)
  have "splitSignature \<lparr>rs_signature = Uint8Array (K @ ?h), rs_recoveryId = 0\<rparr> Format_number =
          Inr (Signature (js ''0'') (decimal K) (decimal ?h))"
    using splitSignature_number[OF l, of 0] assms by (simp add: decimal_def Number_toString_0)
  then show ?thesis
    using assms
    by (simp add: sign_def sign_try_def toy_def toy_signRecoverable_def length_bcSha256 Let_def)
qed

lemma verify_toy:
  assumes "length K = 32" and "K \<noteq> replicate 32 0" and "length Q = 33" and "length h = 32"
    and "length h' = 32"
  shows "verify toy h' Q (Signature (js ''0'') (decimal K) (decimal h)) protocol =
           Inr \<lparr>valid = (Q = 2 # K \<and> h = h'),
                pub = toString_hex Q,
                pubRecovered = toString_hex (if h = h' then 2 # K else replicate 33 0),
                result = stringified protocol\<rparr>"
proof -
  have l: "length (K @ h) = 64" using assms by simp
  have j: "joinSignature (Signature (js ''0'') (decimal K) (decimal h)) =
             Inr \<lparr>joined_signature = K @ h, joined_recoveryId = Integer 0\<rparr>"
    using joinSignature_split[OF l, of "js ''0''"] assms by (simp add: decimal_def Number_0)
  show ?thesis
    using assms
    by (simp add: verify_def j toy_def toy_verify_def toy_recover_def)
qed

lemma signAndVerify_toy:
  assumes "length K = 32" and "K \<noteq> replicate 32 0" and "length Q = 33"
    and "placed protocol (js ''salt'') = JString st"
  shows "signAndVerify toy protocol \<lparr>privKeyBuffer = K, pubKeyBuffer = Q\<rparr> (JString m) None =
           (embed protocol (Signature (js ''0'') (decimal K) (decimal (bcSha256 (utf8 (m @ st)))))
              (bcSha256 (utf8 (m @ st))),
            Inr \<lparr>valid = (Q = 2 # K),
                 pub = toString_hex Q,
                 pubRecovered = toString_hex (2 # K),
                 result = stringified (JObject
                   (embed protocol (Signature (js ''0'') (decimal K) (decimal (bcSha256 (utf8 (m @ st)))))
                      (bcSha256 (utf8 (m @ st)))))\<rparr>)"
  using assms
  by (simp add: signAndVerify_unfold sign_toy test_message_def
      verify_toy[OF assms(1,2,3) length_bcSha256 length_bcSha256])

lemma test_privKey_ok: "length test_privKey = 32 \<and> test_privKey \<noteq> replicate 32 0"
  by code_simp


lemma test_draft_salt: "placed test_draft (js ''salt'') = JString (js ''test_salt'')"
  by (simp add: placed_def test_draft_def lookup_def js_def)

lemma test_draft_flat: "js ''prv'' \<notin> fst ` set test_draft"
  by (simp add: test_draft_def js_def)

section \<open>The claims\<close>

subsection \<open>C1: what \<open>signAndVerify\<close> returns\<close>




subsection \<open>C2: \<open>signVerification\<close>\<close>

lemma verification_draft_eq:
  "verification_draft a h c q ad salt =
     [(js ''p'', JString (js ''tap'')),
      (js ''op'', JString (js ''privilege-auth'')),
      (js ''sig'', JNull),
      (js ''hash'', JNull),
      (js ''address'', JString ad),
      (js ''salt'', JString (ToString salt)),
      (js ''prv'', JString a),
      (js ''verify'', JString h),
      (js ''col'', JString c),
      (js ''seq'', JNumber q)]"
  by (simp add: verification_draft_def object_literal_def set_prop_def array_index_def
      parse_radix_def digit_value_def js_def)

text \<open>
  C2. The claim has \<open>signVerification\<close> treated as a flat variant: the salt read from
  \<open>draft.salt\<close>, a result returned. The code does something else. The draft's \<open>prv\<close>
  field holds the privilege authority id, a string, and \<open>signAndVerify\<close> takes a draft
  whose \<open>prv\<close> is truthy for a nested one: with an authority id that is not empty it
  reads the salt from that string, finds \<open>undefined\<close>, and \<open>sign\<close> throws
  \<open>Invalid input types\<close>, whatever the keys and the other arguments are.
\<close>

theorem signVerification_nonempty_authority_throws:
  "length (key_buffer privKey) = 32 \<Longrightarrow> length (key_buffer pubKey) = 33 \<Longrightarrow>
   privilege_authority_id \<noteq> [] \<Longrightarrow>
   signVerification E privKey pubKey privilege_authority_id sha256_hash collection sequence address salt
     = Inl (Error (js ''Invalid input types''))"
  by (simp add: signVerification_def getKeypairBuff_def verification_draft_eq signAndVerify_def
      lookup_def sign_def Let_def js_def)

text \<open>The theorem at the test keys.\<close>

theorem signVerification_nonempty_authority_throws_witness:
  "signVerification toy (KeyBuffer test_privKey) (KeyBuffer test_pubKey) (js ''authority-1'')
     (js ''5471b88a'') (js ''collection'') (js ''1'') (js ''tb1p96fn'') (JString (js ''test_salt''))
     = Inl (Error (js ''Invalid input types''))"
  by (rule signVerification_nonempty_authority_throws)
     (simp_all add: test_privKey_def test_pubKey_def js_def)

subsection \<open>C3: \<open>verify\<close> and the all-zero signature\<close>

lemma fromBigIntStr_0: "fromBigIntStr (js ''0'') 64 = Inr (replicate 32 0)"
  by code_simp

lemma joinSignature_zero:
  "joinSignature (Signature (js ''0'') (js ''0'') (js ''0'')) =
     Inr \<lparr>joined_signature = replicate 64 0, joined_recoveryId = Integer 0\<rparr>"
  by (simp add: joinSignature_Signature fromBigIntStr_0 Number_0 replicate_add[symmetric])

text \<open>
  C3. The claim has \<open>verify\<close> catch the failure on the signature \<open>{v:"0", r:"0", s:"0"}\<close>
  and raise it again as \<open>Failed to recover the public key: \<dots>\<close>. The code has no handler:
  the signature decodes to 64 zero bytes with recovery id 0, and when the curve library
  returns a verdict for them and then throws in \<open>recover\<close>, \<open>verify\<close> throws that very
  error, unchanged.
\<close>

theorem verify_zero_signature_not_wrapped:
  "ecc_verify E h q (replicate 64 0) = Inr b \<Longrightarrow>
   ecc_recover E h (replicate 64 0) (Integer 0) True = Inl e \<Longrightarrow>
   verify E h q (Signature (js ''0'') (js ''0'') (js ''0'')) protocol = Inl e"
  by (simp add: verify_def joinSignature_zero)

text \<open>
  The theorem at the hash and the public key of the repository's test, on a library that
  throws the \<open>TypeError\<close> the test names.
\<close>

theorem verify_zero_signature_not_wrapped_witness:
  "verify toy test_hash test_pubKey (Signature (js ''0'') (js ''0'') (js ''0'')) JUndefined
     = Inl (TypeError (js ''Expected Signature''))"
  by (rule verify_zero_signature_not_wrapped[where b = False])
     (simp_all add: toy_def toy_verify_def toy_recover_def test_hash_def test_pubKey_def)

subsection \<open>C4: \<open>fromBigIntStr\<close> and numbers that do not fit\<close>

text \<open>
  C4, amended. \<open>fromBigIntStr\<close> never fails on a decimal numeral, whatever its size:
  there is no check of the size. With \<open>n\<close> the number and \<open>len\<close> the length asked for,
  counted in hexadecimal digits: if \<open>n < 16 ^ len\<close> the buffer has \<open>len div 2\<close> bytes
  and, for an even \<open>len\<close>, is the big-endian encoding of \<open>n\<close>; otherwise the buffer has
  half as many bytes (rounded down) as \<open>n\<close> has hexadecimal digits, which are more than
  \<open>len\<close>, and it encodes \<open>n\<close> when that count is even and \<open>n div 16\<close>, the last digit
  dropped, when it is odd.
\<close>

theorem fromBigIntStr_decimal_never_rejects:
  assumes "t \<noteq> []" and "list_all is_decimal_digit t"
  shows "\<exists>n buf. parse_radix 10 t = Some n \<and> fromBigIntStr t len = Inr buf \<and>
           (if n < 16 ^ len
            then length buf = len div 2 \<and> bytes_value buf = (if even len then n else n div 16)
            else len < length (nat_digits 16 n) \<and> length buf = length (nat_digits 16 n) div 2 \<and>
                 bytes_value buf = (if even (length (nat_digits 16 n)) then n else n div 16))"
proof -
  let ?ds = "map (\<lambda>c. unat c - 0x30) t"
  let ?n = "digits_value 10 ?ds"
  have t: "t = map digit_char ?ds" and lt: "list_all (\<lambda>d. d < 10) ?ds"
    using decimal_string_digits[OF assms(2)] by simp_all
  have ne: "?ds \<noteq> []" using assms(1) by simp
  have p: "parse_radix 10 t = Some ?n"
    using parse_radix_digits[OF _ lt ne] t by simp
  have "StringToBigInt t = Some (int ?n)"
    using StringToBigInt_decimal[OF lt ne] t by simp
  then have f: "fromBigIntStr t len = Inr (fromBigInt (int ?n) len)"
    by (simp add: fromBigIntStr_def BigInt_def)
  let ?k = "length (nat_digits 16 ?n)"
  have m: "(if ?n < 16 ^ len then (len = 0 \<and> ?n = 0) \<or> max len ?k = len else len < ?k \<and> max len ?k = ?k)"
  proof (cases "?n < 16 ^ len")
    case True
    show ?thesis
    proof (cases "len = 0")
      case z: True
      with True show ?thesis by simp
    next
      case False
      then have "?k \<le> len" using True by (intro nat_digits_length_le) simp_all
      with True show ?thesis by simp
    qed
  next
    case False
    then have "len < ?k" by (intro nat_digits_length_ge) simp_all
    with False show ?thesis by simp
  qed
  have z: "nat_digits 16 0 = [0]" by (simp add: nat_digits_small)
  have "if ?n < 16 ^ len
        then length (fromBigInt (int ?n) len) = len div 2
             \<and> bytes_value (fromBigInt (int ?n) len) = (if even len then ?n else ?n div 16)
        else len < ?k \<and> length (fromBigInt (int ?n) len) = ?k div 2
             \<and> bytes_value (fromBigInt (int ?n) len) = (if even ?k then ?n else ?n div 16)"
    using m by (auto simp: fromBigInt_length fromBigInt_value z split: if_splits)
  with p f show ?thesis by auto
qed

text \<open>
  The claim as stated fails: \<open>2\<^sup>2\<^sup>5\<^sup>6\<close> does not fit in 32 bytes, and \<open>fromBigIntStr\<close>
  with the default length returns 32 bytes for it, those of \<open>2\<^sup>2\<^sup>5\<^sup>2\<close>.
\<close>

theorem fromBigIntStr_too_large_counterexample:
  "fromBigIntStr
     (js ''115792089237316195423570985008687907853269984665640564039457584007913129639936'')
     default_length =
   Inr [0x10, 0, 0, 0, 0, 0, 0, 0, 0, 0, 0, 0, 0, 0, 0, 0,
        0, 0, 0, 0, 0, 0, 0, 0, 0, 0, 0, 0, 0, 0, 0, 0]"
  by (simp add: fromBigIntStr_def BigInt_def StringToBigInt_def trim_def is_white_space_def
      parse_radix_def digit_value_def js_def fromBigInt_def BigInt_toString_def nat_digits.simps
      padStart_def digit_char_def low_byte_def default_length_def)

text \<open>The theorem at the numeral 4096 and a length of two digits.\<close>

theorem fromBigIntStr_decimal_never_rejects_witness:
  "\<exists>n buf. parse_radix 10 (js ''4096'') = Some n \<and> fromBigIntStr (js ''4096'') 2 = Inr buf \<and>
     \<not> n < 16 ^ 2 \<and> length buf = length (nat_digits 16 n) div 2"
proof -
  have "js ''4096'' \<noteq> []" "list_all is_decimal_digit (js ''4096'')"
    by (simp_all add: js_def is_decimal_digit_def)
  from fromBigIntStr_decimal_never_rejects[OF this, of 2]
  obtain n buf where a: "parse_radix 10 (js ''4096'') = Some n" "fromBigIntStr (js ''4096'') 2 = Inr buf"
    "(if n < 16 ^ 2
      then length buf = 2 div 2 \<and> bytes_value buf = (if even (2::nat) then n else n div 16)
      else 2 < length (nat_digits 16 n) \<and> length buf = length (nat_digits 16 n) div 2 \<and>
           bytes_value buf = (if even (length (nat_digits 16 n)) then n else n div 16))"
    by blast
  have "parse_radix 10 (js ''4096'') = Some 4096" by code_simp
  with a(1) have "n = 4096" by simp
  with a show ?thesis by auto
qed

subsection \<open>C5: \<open>joinSignature\<close> after \<open>splitSignature\<close>\<close>

text \<open>
  C5. For every buffer \<open>b\<close> of 64 bytes and every recovery id 0 or 1, \<open>splitSignature\<close>
  in its default decimal format returns a signature from which \<open>joinSignature\<close> returns
  exactly \<open>b\<close> and the recovery id.
\<close>

theorem joinSignature_splitSignature:
  assumes "length b = 64" and "recoveryId = 0 \<or> recoveryId = 1"
  shows "\<exists>sg. splitSignature \<lparr>rs_signature = Uint8Array b, rs_recoveryId = recoveryId\<rparr> Format_number
                = Inr sg
            \<and> joinSignature sg = Inr \<lparr>joined_signature = b, joined_recoveryId = Integer recoveryId\<rparr>"
proof -
  have "int recoveryId \<le> 9007199254740992" using assms(2) by auto
  then have "Number (Number_toString recoveryId) = Integer recoveryId"
    by (rule Number_Number_toString)
  then show ?thesis
    using splitSignature_number[OF assms(1), of recoveryId]
      joinSignature_split[OF assms(1), of "Number_toString recoveryId"]
    by simp
qed

text \<open>The theorem at the test key followed by the test hash, with recovery id 1.\<close>

theorem joinSignature_splitSignature_witness:
  "\<exists>sg. splitSignature \<lparr>rs_signature = Uint8Array (test_privKey @ test_hash), rs_recoveryId = 1\<rparr>
           Format_number = Inr sg
       \<and> joinSignature sg =
           Inr \<lparr>joined_signature = test_privKey @ test_hash, joined_recoveryId = Integer 1\<rparr>"
  by (rule joinSignature_splitSignature) (simp_all add: test_privKey_def test_hash_def)

subsection \<open>C6: what \<open>sign\<close> validates\<close>

lemma js_neq_invalid: "js ''Failed to sign the message: '' @ x \<noteq> js ''Invalid input types''"
  by (simp add: js_def)

text \<open>
  C6, amended. \<open>sign\<close> fails with \<open>Invalid input types\<close> exactly when the message is
  not a string, or the private key is not a \<open>Buffer\<close>, or the salt is not a string. The
  length of the key is not looked at: with a string, a buffer of any length and a string,
  \<open>sign\<close> calls the curve signer on the SHA-256 of the UTF-8 bytes of message and salt
  and on that key. A rejection by the signer comes out as
  \<open>Failed to sign the message: \<dots>\<close> with the signer's error as the cause, and so does a
  failure to split what the signer returned; otherwise \<open>sign\<close> returns the split
  signature and the hash.
\<close>

theorem sign_invalid_input_iff:
  "(sign E message privKey salt = Inl (Error (js ''Invalid input types''))) =
     (\<not> (\<exists>m key st. message = JString m \<and> privKey = Buffer key \<and> salt = JString st))
   \<and> sign E (JString m) (Buffer key) (JString st) =
       (case ecc_signRecoverable E (bcSha256 (utf8 (m @ st))) key of
          Inl e \<Rightarrow> Inl (Error (js ''Failed to sign the message: '' @ error_text e))
        | Inr recoverableSig \<Rightarrow>
            (case splitSignature recoverableSig Format_number of
               Inl e \<Rightarrow> Inl (Error (js ''Failed to sign the message: '' @ error_text e))
             | Inr sg \<Rightarrow> Inr (sg, bcSha256 (utf8 (m @ st)))))"
  by (auto simp: sign_def sign_try_def Let_def js_neq_invalid
      split: jsvalue.splits buffer_value.splits sum.splits)

lemma utf8_test_privKey: "length (utf8 (js ''test_privKey'')) = 12"
  by (simp add: js_def utf8_1_def)

text \<open>
  The claim as stated fails on the key of the repository's own test, the twelve bytes of
  \<open>test_privKey\<close>: the error is the signer's, wrapped, not \<open>Invalid input types\<close>.
\<close>

theorem sign_short_key_counterexample:
  "sign toy (JString (js ''test_message'')) (Buffer (utf8 (js ''test_privKey'')))
     (JString (js ''test_salt''))
   = Inl (Error (js ''Failed to sign the message: TypeError: Expected Private''))"
  by (simp add: sign_def sign_try_def toy_def toy_signRecoverable_def length_bcSha256
      utf8_test_privKey Let_def error_text_def) (simp add: js_def)

text \<open>
  The theorem at a key that is no buffer, at the key of twelve bytes, and at an empty
  buffer, which passes the test of the types and is rejected by the signer.
\<close>

theorem sign_invalid_input_iff_witness:
  "sign toy (JString (js ''test_message'')) NotBuffer (JString (js ''test_salt''))
     = Inl (Error (js ''Invalid input types''))
   \<and> sign toy (JString (js ''test_message'')) (Buffer (utf8 (js ''test_privKey'')))
       (JString (js ''test_salt'')) \<noteq> Inl (Error (js ''Invalid input types''))
   \<and> sign toy (JString (js ''test_message'')) (Buffer []) (JString (js ''test_salt''))
       = Inl (Error (js ''Failed to sign the message: TypeError: Expected Private''))"
proof -
  have e: "ecc_signRecoverable toy (bcSha256 (utf8 (js ''test_message'' @ js ''test_salt''))) []
      = Inl (TypeError (js ''Expected Private''))"
    by (simp add: toy_def toy_signRecoverable_def length_bcSha256)
  show ?thesis
    using sign_invalid_input_iff[of toy "JString (js ''test_message'')" NotBuffer
        "JString (js ''test_salt'')", THEN conjunct1]
      sign_invalid_input_iff[of toy "JString (js ''test_message'')" "Buffer (utf8 (js ''test_privKey''))"
        "JString (js ''test_salt'')", THEN conjunct1]
      sign_invalid_input_iff[of toy _ _ _ "js ''test_message''" "[]" "js ''test_salt''", THEN conjunct2]
    by (simp add: e error_text_def) (simp add: js_def)
qed

subsection \<open>C7: when \<open>verify\<close> returns a result\<close>

text \<open>
  C7, amended. \<open>verify\<close> returns a result exactly when \<open>r\<close> and \<open>s\<close> are texts that
  \<open>BigInt\<close> accepts and the curve library returns from both \<open>ecc.verify\<close> and
  \<open>ecc.recover\<close> on the decoded signature. In that result \<open>valid\<close> is the verdict of the
  library, true or false alike, and \<open>pubRecovered\<close> is the hexadecimal text of the
  recovered key, or of 33 zero bytes when recovery yields no point.
\<close>

theorem verify_returns_verdict:
  "(verify E h q (Signature v r s) protocol = Inr res) =
     (\<exists>rn sn b recovered.
        StringToBigInt r = Some rn \<and> StringToBigInt s = Some sn
        \<and> ecc_verify E h q (fromBigInt rn 64 @ fromBigInt sn 64) = Inr b
        \<and> ecc_recover E h (fromBigInt rn 64 @ fromBigInt sn 64) (Number v) True = Inr recovered
        \<and> res = \<lparr>valid = b, pub = toString_hex q,
                   pubRecovered =
                     toString_hex (case recovered of None \<Rightarrow> replicate 33 0 | Some p \<Rightarrow> p),
                   result = stringified protocol\<rparr>)"
  by (auto simp: verify_def joinSignature_Signature fromBigIntStr_def BigInt_def
      split: option.splits sum.splits)

text \<open>
  The claim as stated fails: \<open>r\<close>, \<open>s\<close> and \<open>v\<close> being strings does not make \<open>verify\<close>
  return. With \<open>r = "abc"\<close> the decoding raises before the curve library is called, and
  with the all-zero signature of the repository's test the library rejects the
  signature; in both calls \<open>verify\<close> raises and returns no result.
\<close>

theorem verify_raises_counterexample:
  "verify recorded test_hash test_pubKey (Signature (js ''0'') (js ''abc'') (js ''1'')) JUndefined
     = Inl (SyntaxError (js ''Cannot convert abc to a BigInt''))
   \<and> verify recorded test_hash test_pubKey (Signature (js ''0'') (js ''0'') (js ''0'')) JUndefined
     = Inl (TypeError (js ''Expected Signature''))"
proof -
  have "fromBigIntStr (js ''abc'') 64 = Inl (SyntaxError (js ''Cannot convert abc to a BigInt''))"
    by code_simp
  then have a: "verify recorded test_hash test_pubKey
      (Signature (js ''0'') (js ''abc'') (js ''1'')) JUndefined
      = Inl (SyntaxError (js ''Cannot convert abc to a BigInt''))"
    by (simp add: verify_def joinSignature_Signature)
  have b: "verify recorded test_hash test_pubKey
      (Signature (js ''0'') (js ''0'') (js ''0'')) JUndefined
      = Inl (TypeError (js ''Expected Signature''))"
    by (simp add: verify_def joinSignature_zero recorded_def recorded_verify_def
        recorded_recover_def test_hash_def test_pubKey_def)
  from a b show ?thesis by simp
qed

lemma test_signature_numerals:
  "StringToBigInt (js ''34249651214269469717861213398711965184800430928931385332066625619914023697843'') = Some 34249651214269469717861213398711965184800430928931385332066625619914023697843"
  "StringToBigInt (js ''36706060356166294409252831878099979084287150562193464995607767095211250500217'') = Some 36706060356166294409252831878099979084287150562193464995607767095211250500217"
  by (simp_all add: StringToBigInt_def trim_def is_white_space_def
      parse_radix_def digit_value_def js_def)

lemma test_signature_bytes:
  "fromBigInt 34249651214269469717861213398711965184800430928931385332066625619914023697843 64 @ fromBigInt 36706060356166294409252831878099979084287150562193464995607767095211250500217 64 = test_signature"
  by (simp add: fromBigInt_def BigInt_toString_def nat_digits.simps
      padStart_def digit_char_def digit_value_def low_byte_def test_signature_def)

lemma pubKey_hex:
  "toString_hex test_pubKey = js ''03087906bf9472c7db48daee1478b7e70f4b3ce01436a241e3418b72ecdc87884b''"
  "toString_hex other_pubKey = js ''0282984730b88570f86c56d475d90258d1ca9755373e18fabc130791923f9e0f4a''"
  by code_simp+

lemma test_signature_nonzero:
  "take 32 test_signature \<noteq> replicate 32 0 \<and> drop 32 test_signature \<noteq> replicate 32 0"
  by code_simp

lemma recorded_run:
  "ecc_verify recorded test_hash test_pubKey test_signature = Inr True"
  "ecc_verify recorded test_hash other_pubKey test_signature = Inr False"
  "ecc_recover recorded test_hash test_signature (Integer 0) True = Inr (Some test_pubKey)"
proof -
  have l: "length test_hash = 32" "length test_pubKey = 33" "length other_pubKey = 33"
    "length test_signature = 64" "other_pubKey \<noteq> test_pubKey"
    by (simp_all add: test_hash_def test_pubKey_def other_pubKey_def test_signature_def)
  show "ecc_verify recorded test_hash test_pubKey test_signature = Inr True"
    "ecc_verify recorded test_hash other_pubKey test_signature = Inr False"
    "ecc_recover recorded test_hash test_signature (Integer 0) True = Inr (Some test_pubKey)"
    using test_signature_nonzero
    by (simp_all add: recorded_def recorded_verify_def recorded_recover_def l)
qed

text \<open>
  The theorem at the run that the repository's test records, where the verdict is true
  and the recovered key is the public key, and at the same hash and signature with the
  public key of the README, where the verdict is false and nothing is raised.
\<close>

theorem verify_returns_verdict_witness:
  "verify recorded test_hash test_pubKey
     (Signature (js ''0'')
        (js ''34249651214269469717861213398711965184800430928931385332066625619914023697843'')
        (js ''36706060356166294409252831878099979084287150562193464995607767095211250500217''))
     JUndefined =
     Inr \<lparr>valid = True,
          pub = js ''03087906bf9472c7db48daee1478b7e70f4b3ce01436a241e3418b72ecdc87884b'',
          pubRecovered = js ''03087906bf9472c7db48daee1478b7e70f4b3ce01436a241e3418b72ecdc87884b'',
          result = JUndefined\<rparr>
   \<and> verify recorded test_hash other_pubKey
     (Signature (js ''0'')
        (js ''34249651214269469717861213398711965184800430928931385332066625619914023697843'')
        (js ''36706060356166294409252831878099979084287150562193464995607767095211250500217''))
     JUndefined =
     Inr \<lparr>valid = False,
          pub = js ''0282984730b88570f86c56d475d90258d1ca9755373e18fabc130791923f9e0f4a'',
          pubRecovered = js ''03087906bf9472c7db48daee1478b7e70f4b3ce01436a241e3418b72ecdc87884b'',
          result = JUndefined\<rparr>"
  using verify_returns_verdict[of recorded test_hash test_pubKey "js ''0''"
      "js ''34249651214269469717861213398711965184800430928931385332066625619914023697843''"
      "js ''36706060356166294409252831878099979084287150562193464995607767095211250500217''" JUndefined]
    verify_returns_verdict[of recorded test_hash other_pubKey "js ''0''"
      "js ''34249651214269469717861213398711965184800430928931385332066625619914023697843''"
      "js ''36706060356166294409252831878099979084287150562193464995607767095211250500217''" JUndefined]
  by (auto simp add: test_signature_numerals test_signature_bytes recorded_run Number_0 pubKey_hex
      stringified_def)

subsection \<open>C8: the hash that \<open>sign\<close> takes\<close>

text \<open>
  C8, amended. When the message does not end in a high surrogate that the salt continues
  with a low surrogate (so for all well-formed texts), the hash that \<open>sign\<close> returns and
  hands to the signer is the SHA-256 digest of the UTF-8 bytes of the message followed by
  the UTF-8 bytes of the salt, and it has 32 bytes.
\<close>

theorem sign_hash_of_concatenation:
  assumes "\<not> (m \<noteq> [] \<and> is_high_surrogate (last m) \<and> st \<noteq> [] \<and> is_low_surrogate (hd st))"
    and "sign E (JString m) (Buffer key) (JString st) = Inr (sg, h)"
  shows "h = bcSha256 (utf8 m @ utf8 st) \<and> length h = 32
         \<and> (\<exists>rs. ecc_signRecoverable E h key = Inr rs)"
  using sign_Inr[OF assms(2)] utf8_append[OF assms(1)] by (auto simp: length_bcSha256)

lemma utf8_pair: "utf8 ([0xD83D] @ [0xDE00]) = [0xF0, 0x9F, 0x98, 0x80] \<and>
  utf8 [0xD83D] @ utf8 [0xDE00] = [0xEF, 0xBF, 0xBD, 0xEF, 0xBF, 0xBD]"
  by code_simp

lemma sha_pair_digest:
  "bcSha256 [0xF0, 0x9F, 0x98, 0x80] =
     [0xf0, 0x44, 0x3a, 0x34, 0x2c, 0x5e, 0xf5, 0x47, 0x83, 0xa1, 0x11, 0xb5, 0x1b, 0xa5, 0x6c, 0x93,
      0x8e, 0x47, 0x4c, 0x32, 0x32, 0x4d, 0x90, 0xc3, 0xa6, 0x0c, 0x9c, 0x8e, 0x3a, 0x37, 0xe2, 0xd9]"
  by code_simp

lemma sha_lone_digest:
  "bcSha256 [0xEF, 0xBF, 0xBD, 0xEF, 0xBF, 0xBD] =
     [0x52, 0x79, 0x3f, 0x8d, 0xc1, 0xd8, 0x5e, 0x40, 0x9f, 0x8c, 0x88, 0xbe, 0x99, 0xd8, 0xb3, 0x1d,
      0x58, 0xf6, 0x76, 0x24, 0x63, 0x40, 0x15, 0x0f, 0x40, 0x62, 0x89, 0xe0, 0x4a, 0x11, 0x15, 0x1e]"
  by code_simp

text \<open>
  The claim as stated fails: \<open>sign\<close> encodes the concatenated text. A message that is a
  lone high surrogate and a salt that is a lone low surrogate make one code point of four
  bytes, while each alone is encoded as the replacement character: the two digests
  differ.
\<close>

theorem sign_hash_surrogate_counterexample:
  "map_sum id snd (sign toy (JString [0xD83D]) (Buffer test_privKey) (JString [0xDE00])) =
     Inr [0xf0, 0x44, 0x3a, 0x34, 0x2c, 0x5e, 0xf5, 0x47, 0x83, 0xa1, 0x11, 0xb5, 0x1b, 0xa5, 0x6c, 0x93,
          0x8e, 0x47, 0x4c, 0x32, 0x32, 0x4d, 0x90, 0xc3, 0xa6, 0x0c, 0x9c, 0x8e, 0x3a, 0x37, 0xe2, 0xd9]
   \<and> bcSha256 (utf8 [0xD83D] @ utf8 [0xDE00]) =
     [0x52, 0x79, 0x3f, 0x8d, 0xc1, 0xd8, 0x5e, 0x40, 0x9f, 0x8c, 0x88, 0xbe, 0x99, 0xd8, 0xb3, 0x1d,
      0x58, 0xf6, 0x76, 0x24, 0x63, 0x40, 0x15, 0x0f, 0x40, 0x62, 0x89, 0xe0, 0x4a, 0x11, 0x15, 0x1e]"
  using test_privKey_ok utf8_pair
  by (simp add: sign_toy sha_pair_digest sha_lone_digest)

text \<open>The theorem at the message and the salt of the repository's test.\<close>

theorem sign_hash_of_concatenation_witness:
  "\<exists>rs. ecc_signRecoverable toy (bcSha256 (utf8 (js ''test_message'') @ utf8 (js ''test_salt'')))
          test_privKey = Inr rs"
proof -
  have a: "\<not> (js ''test_message'' \<noteq> [] \<and> is_high_surrogate (last (js ''test_message''))
            \<and> js ''test_salt'' \<noteq> [] \<and> is_low_surrogate (hd (js ''test_salt'')))"
    by (simp add: js_def is_low_surrogate_def)
  have b: "sign toy (JString (js ''test_message'')) (Buffer test_privKey) (JString (js ''test_salt''))
       = Inr (Signature (js ''0'') (decimal test_privKey)
                (decimal (bcSha256 (utf8 (js ''test_message'' @ js ''test_salt'')))),
              bcSha256 (utf8 (js ''test_message'' @ js ''test_salt'')))"
    using test_privKey_ok by (simp add: sign_toy)
  show ?thesis
    using sign_hash_of_concatenation[OF a b] by auto
qed

subsection \<open>C9: the text that \<open>signMint\<close> signs\<close>

lemma mint_draft_eq:
  "mint_draft E ticker amount address salt =
     [(js ''p'', JString (js ''tap'')),
      (js ''op'', JString (js ''token-mint'')),
      (js ''tick'', JString (toLowerCase E ticker)),
      (js ''amt'', JNumber amount),
      (js ''prv'', JObject
         [(js ''sig'', JNull),
          (js ''hash'', JNull),
          (js ''address'', JString address),
          (js ''salt'', JString (ToString salt))])]"
  by (simp add: mint_draft_def object_literal_def set_prop_def array_index_def
      parse_radix_def digit_value_def js_def)

lemma embed_mint_draft:
  "embed (mint_draft E ticker amount address salt) sg h =
     [(js ''p'', JString (js ''tap'')),
      (js ''op'', JString (js ''token-mint'')),
      (js ''tick'', JString (toLowerCase E ticker)),
      (js ''amt'', JNumber amount),
      (js ''prv'', JObject
         [(js ''sig'', sg),
          (js ''hash'', JString (toString_hex h)),
          (js ''address'', JString address),
          (js ''salt'', JString (ToString salt))])]"
  by (simp add: mint_draft_eq embed_def lookup_def set_prop_def js_def)

lemma placed_mint_draft:
  "placed (mint_draft E ticker amount address salt) (js ''salt'') = JString (ToString salt)"
  by (simp add: mint_draft_eq placed_def lookup_def js_def)

lemma signMint_unfold:
  "length (key_buffer privKey) = 32 \<Longrightarrow> length (key_buffer pubKey) = 33 \<Longrightarrow>
   signMint E privKey pubKey ticker amount address salt =
     snd (signAndVerify E (mint_draft E ticker amount address salt)
            \<lparr>privKeyBuffer = key_buffer privKey, pubKeyBuffer = key_buffer pubKey\<rparr>
            (JString (mint_text E ticker amount address)) None)"
  by (simp add: signMint_def getKeypairBuff_def Let_def mint_draft_eq lookup_def mint_text_def js_def)

text \<open>
  C9. In every call of \<open>signMint\<close> that returns, the hash given to the signer is that of
  the text \<open>tap-token-mint-{tick}-{amt}-{address}-\<close> followed by the salt, where \<open>tick\<close>
  is the ticker in lower case, and the result is the serialisation of the draft with the
  signature and the hash under \<open>prv\<close>.
\<close>

theorem signMint_signs_text:
  assumes "signMint E privKey pubKey ticker amount address salt = Inr res"
  shows "\<exists>rs sg.
           ecc_signRecoverable E
             (bcSha256 (utf8 (mint_text E ticker amount address @ ToString salt)))
             (key_buffer privKey) = Inr rs
         \<and> splitSignature rs Format_number = Inr sg
         \<and> result res = stringified (JObject
             [(js ''p'', JString (js ''tap'')),
              (js ''op'', JString (js ''token-mint'')),
              (js ''tick'', JString (toLowerCase E ticker)),
              (js ''amt'', JNumber amount),
              (js ''prv'', JObject
                 [(js ''sig'', sg),
                  (js ''hash'', JString (toString_hex
                     (bcSha256 (utf8 (mint_text E ticker amount address @ ToString salt))))),
                  (js ''address'', JString address),
                  (js ''salt'', JString (ToString salt))])])"
proof -
  let ?d = "mint_draft E ticker amount address salt"
  let ?kp = "\<lparr>privKeyBuffer = key_buffer privKey, pubKeyBuffer = key_buffer pubKey\<rparr>"
  let ?bm = "JString (mint_text E ticker amount address)"
  have k: "length (key_buffer privKey) = 32" "length (key_buffer pubKey) = 33"
    using assms by (auto simp: signMint_def getKeypairBuff_def Let_def split: if_splits)
  have u: "snd (signAndVerify E ?d ?kp ?bm None) = Inr res"
    using assms signMint_unfold[OF k] by simp
  then obtain sg h where
    s: "sign E ?bm (Buffer (key_buffer privKey)) (JString (ToString salt)) = Inr (sg, h)"
    by (auto simp: signAndVerify_unfold placed_mint_draft split: sum.splits)
  from u s have v: "verify E
       (bcSha256 (utf8 (ToString (test_message (embed ?d sg h) ?bm None) @ ToString (JString (ToString salt)))))
       (key_buffer pubKey) sg (JObject (embed ?d sg h)) = Inr res"
    by (simp add: signAndVerify_unfold placed_mint_draft)
  from sign_Inr[OF s] obtain rs where
    h: "h = bcSha256 (utf8 (mint_text E ticker amount address @ ToString salt))"
    and rs: "ecc_signRecoverable E h (key_buffer privKey) = Inr rs"
      "splitSignature rs Format_number = Inr sg"
    by auto
  from verify_Inr[OF v] have "result res = stringified (JObject (embed ?d sg h))" by blast
  then show ?thesis using rs h by (auto simp: embed_mint_draft)
qed

text \<open>The theorem at a call with the test key.\<close>

theorem signMint_signs_text_witness:
  "\<exists>rs sg.
     ecc_signRecoverable toy (bcSha256 (utf8 (js ''tap-token-mint-tap-token-1000-tb1p96fn-0.5'')))
       test_privKey = Inr rs
   \<and> splitSignature rs Format_number = Inr sg"
proof -
  let ?d = "mint_draft toy (js ''TAP-Token'') (js ''1000'') (js ''tb1p96fn'') (JNumber (js ''0.5''))"
  let ?m = "mint_text toy (js ''TAP-Token'') (js ''1000'') (js ''tb1p96fn'')"
  let ?h = "bcSha256 (utf8 (?m @ js ''0.5''))"
  let ?sg = "Signature (js ''0'') (decimal test_privKey) (decimal ?h)"
  have k: "length (key_buffer (KeyBuffer test_privKey)) = 32"
      "length (key_buffer (KeyBuffer (2 # test_privKey))) = 33"
    using test_privKey_ok by simp_all
  have "signAndVerify toy ?d \<lparr>privKeyBuffer = test_privKey, pubKeyBuffer = 2 # test_privKey\<rparr>
          (JString ?m) None =
        (embed ?d ?sg ?h,
         Inr \<lparr>valid = True, pub = toString_hex (2 # test_privKey),
              pubRecovered = toString_hex (2 # test_privKey),
              result = stringified (JObject (embed ?d ?sg ?h))\<rparr>)"
    using test_privKey_ok signAndVerify_toy[of test_privKey "2 # test_privKey" ?d "js ''0.5''" ?m]
    by (simp add: placed_mint_draft)
  then have r: "signMint toy (KeyBuffer test_privKey) (KeyBuffer (2 # test_privKey)) (js ''TAP-Token'')
            (js ''1000'') (js ''tb1p96fn'') (JNumber (js ''0.5'')) =
        Inr \<lparr>valid = True, pub = toString_hex (2 # test_privKey),
             pubRecovered = toString_hex (2 # test_privKey),
             result = stringified (JObject (embed ?d ?sg ?h))\<rparr>"
    using signMint_unfold[OF k] by simp
  have t: "?m @ js ''0.5'' = js ''tap-token-mint-tap-token-1000-tb1p96fn-0.5''"
    by (simp add: mint_text_def toy_def ascii_lower_def js_def)
  show ?thesis
    using signMint_signs_text[OF r] by (auto simp: t)
qed

subsection \<open>C10: what \<open>signAndVerify\<close> changes in a flat draft\<close>

text \<open>
  C10. For a draft with no \<open>prv\<close> field, a call of \<open>signAndVerify\<close> that returns leaves
  every property other than \<open>sig\<close> and \<open>hash\<close> as it was, in value and in order, and its
  \<open>result\<close> is the serialisation of the draft as the call leaves it.
\<close>

theorem signAndVerify_flat_frame:
  assumes "js ''prv'' \<notin> fst ` set protocol"
    and "signAndVerify E protocol keypair baseMessage messageKey = (protocol', Inr res)"
  shows "filter (\<lambda>p. fst p \<noteq> js ''sig'' \<and> fst p \<noteq> js ''hash'') protocol'
           = filter (\<lambda>p. fst p \<noteq> js ''sig'' \<and> fst p \<noteq> js ''hash'') protocol
         \<and> result res = stringified (JObject protocol')"
proof -
  from assms(2) obtain sg h where
    s: "sign E baseMessage (Buffer (privKeyBuffer keypair)) (placed protocol (js ''salt'')) = Inr (sg, h)"
    by (auto simp: signAndVerify_unfold split: sum.splits)
  from assms(2) s have p: "protocol' = embed protocol sg h"
    and v: "verify E
              (bcSha256 (utf8 (ToString (test_message (embed protocol sg h) baseMessage messageKey)
                                @ ToString (placed protocol (js ''salt'')))))
              (pubKeyBuffer keypair) sg (JObject (embed protocol sg h)) = Inr res"
    by (auto simp: signAndVerify_unfold)
  have e: "embed protocol sg h =
      set_prop (set_prop protocol (js ''sig'') sg) (js ''hash'') (JString (toString_hex h))"
    using lookup_absent[OF assms(1)] by (simp add: embed_def)
  have "filter (\<lambda>p. fst p \<noteq> js ''sig'' \<and> fst p \<noteq> js ''hash'') (embed protocol sg h)
          = filter (\<lambda>p. fst p \<noteq> js ''sig'' \<and> fst p \<noteq> js ''hash'') protocol"
    unfolding e by (simp add: filter_set_prop_other)
  then show ?thesis using verify_Inr[OF v] p by auto
qed

text \<open>The theorem at the draft of the repository's test.\<close>

theorem signAndVerify_flat_frame_witness:
  "filter (\<lambda>p. fst p \<noteq> js ''sig'' \<and> fst p \<noteq> js ''hash'')
     (fst (signAndVerify toy test_draft \<lparr>privKeyBuffer = test_privKey, pubKeyBuffer = 2 # test_privKey\<rparr>
             (JString (js ''test_baseMessage'')) None))
   = [(js ''p'', JString (js ''tap'')), (js ''op'', JString (js ''privilege-auth'')),
      (js ''salt'', JString (js ''test_salt''))]"
proof -
  let ?kp = "\<lparr>privKeyBuffer = test_privKey, pubKeyBuffer = 2 # test_privKey\<rparr>"
  have r: "signAndVerify toy test_draft ?kp (JString (js ''test_baseMessage'')) None =
      (fst (signAndVerify toy test_draft ?kp (JString (js ''test_baseMessage'')) None),
       Inr \<lparr>valid = True, pub = toString_hex (2 # test_privKey),
            pubRecovered = toString_hex (2 # test_privKey),
            result = stringified (JObject
              (fst (signAndVerify toy test_draft ?kp (JString (js ''test_baseMessage'')) None)))\<rparr>)"
    using test_privKey_ok by (simp add: signAndVerify_toy[OF _ _ _ test_draft_salt])
  have "filter (\<lambda>p. fst p \<noteq> js ''sig'' \<and> fst p \<noteq> js ''hash'') test_draft =
      [(js ''p'', JString (js ''tap'')), (js ''op'', JString (js ''privilege-auth'')),
       (js ''salt'', JString (js ''test_salt''))]"
    by (simp add: test_draft_def js_def)
  then show ?thesis
    using signAndVerify_flat_frame[OF test_draft_flat r] by simp
qed

end
